theory Spec2Isabelle
  imports Main "HOL-Library.AList"
begin

section \<open>Strings and the platform functions the validators call\<close>

text \<open>
  A JavaScript string is modelled as a \<^typ>\<open>string\<close>: a list of characters, read as the
  code units below 256. The functions of this section are the library functions the
  repository calls (\<^verbatim>\<open>toLowerCase\<close>, \<^verbatim>\<open>trim\<close>, \<^verbatim>\<open>split\<close>, \<^verbatim>\<open>parseInt\<close>,
  \<^verbatim>\<open>RegExp.test\<close>), written out so that the validators can be evaluated.
\<close>

definition code :: "char \<Rightarrow> nat" where
  "code c = of_char c"

definition isDigit :: "char \<Rightarrow> bool" where
  "isDigit c = (48 \<le> code c \<and> code c \<le> 57)"

definition isHexDigit :: "char \<Rightarrow> bool" where
  "isHexDigit c = (isDigit c \<or> (65 \<le> code c \<and> code c \<le> 70) \<or> (97 \<le> code c \<and> code c \<le> 102))"

text \<open>White space and line terminators, as \<^verbatim>\<open>trim\<close> and \<^verbatim>\<open>parseInt\<close> strip them:
  TAB, LF, VT, FF, CR, SPACE and NBSP.\<close>

definition isWhiteSpace :: "char \<Rightarrow> bool" where
  "isWhiteSpace c = (code c \<in> {9, 10, 11, 12, 13, 32, 160})"

definition lowerChar :: "char \<Rightarrow> char" where
  "lowerChar c =
     (if (65 \<le> code c \<and> code c \<le> 90) \<or> (192 \<le> code c \<and> code c \<le> 222 \<and> code c \<noteq> 215)
      then char_of (code c + 32) else c)"

definition toLowerCase :: "string \<Rightarrow> string" where
  "toLowerCase s = map lowerChar s"

definition trim :: "string \<Rightarrow> string" where
  "trim s = rev (dropWhile isWhiteSpace (rev (dropWhile isWhiteSpace s)))"

text \<open>\<^verbatim>\<open>s.split(c)\<close> for a one-character separator: the pieces between the occurrences
  of \<open>c\<close>; the empty string gives one empty piece.\<close>

fun split :: "char \<Rightarrow> string \<Rightarrow> string list" where
  "split c [] = [[]]"
| "split c (x # xs) =
     (if x = c then [] # split c xs
      else (case split c xs of p # ps \<Rightarrow> (x # p) # ps | [] \<Rightarrow> [[x]]))"

definition includesChr :: "string \<Rightarrow> char \<Rightarrow> bool" where
  "includesChr s c = (c \<in> set s)"

definition digitValue :: "char \<Rightarrow> int" where
  "digitValue c =
     (if isDigit c then int (code c) - 48
      else if 97 \<le> code c then int (code c) - 87
      else int (code c) - 55)"

definition numberValue :: "int \<Rightarrow> string \<Rightarrow> int" where
  "numberValue radix ds = foldl (\<lambda>acc c. acc * radix + digitValue c) 0 ds"

text \<open>
  \<^verbatim>\<open>parseInt(str)\<close> with no radix: leading white space is skipped, a sign is read, a
  prefix \<^verbatim>\<open>0x\<close> or \<^verbatim>\<open>0X\<close> selects radix 16, and the longest run of digits of the radix is
  the value; whatever follows is ignored. \<open>None\<close> is \<^verbatim>\<open>NaN\<close>: no digit was found.
  The result is an unbounded integer; the callers only compare it with bounds below
  \<open>2^53\<close>, where the floating-point value of the source is the same integer.
\<close>

definition parseInt :: "string \<Rightarrow> int option" where
  "parseInt str =
     (let s0 = dropWhile isWhiteSpace str;
          sign = (case s0 of c # _ \<Rightarrow> if c = CHR ''-'' then - 1 else 1 | [] \<Rightarrow> (1 :: int));
          s1 = (case s0 of c # cs \<Rightarrow> if c = CHR ''-'' \<or> c = CHR ''+'' then cs else s0 | [] \<Rightarrow> s0);
          hex = (take 2 s1 = ''0x'' \<or> take 2 s1 = ''0X'');
          s2 = (if hex then drop 2 s1 else s1);
          ds = takeWhile (if hex then isHexDigit else isDigit) s2
      in if ds = [] then None else Some (sign * numberValue (if hex then 16 else 10) ds))"

subsection \<open>Regular expressions\<close>

text \<open>
  The fragment of regular expressions the source uses: \<^verbatim>\<open>\d\<close>, a literal character,
  concatenation and the bounded repetition \<^verbatim>\<open>r{m,n}\<close>. \<open>rx_run r s\<close> lists what is
  left of \<open>s\<close> after each way of matching \<open>r\<close> at its start; \<open>rx_test\<close> is
  \<^verbatim>\<open>/^r$/.test(s)\<close>, a match of the whole string.
\<close>

datatype rx = Digit | Lit char | Seq rx rx | Rep nat nat rx

fun rx_rep :: "(string \<Rightarrow> string list) \<Rightarrow> nat \<Rightarrow> nat \<Rightarrow> string \<Rightarrow> string list" where
  "rx_rep f m 0 s = (if m = 0 then [s] else [])"
| "rx_rep f m (Suc n) s =
     (if m = 0 then [s] else []) @ concat (map (rx_rep f (m - 1) n) (f s))"

primrec rx_run :: "rx \<Rightarrow> string \<Rightarrow> string list" where
  "rx_run Digit = (\<lambda>s. case s of c # cs \<Rightarrow> if isDigit c then [cs] else [] | [] \<Rightarrow> [])"
| "rx_run (Lit a) = (\<lambda>s. case s of c # cs \<Rightarrow> if c = a then [cs] else [] | [] \<Rightarrow> [])"
| "rx_run (Seq r1 r2) = (\<lambda>s. concat (map (rx_run r2) (rx_run r1 s)))"
| "rx_run (Rep m n r) = rx_rep (rx_run r) m n"

definition rx_test :: "rx \<Rightarrow> string \<Rightarrow> bool" where
  "rx_test r s = ([] \<in> set (rx_run r s))"

section \<open>AddressMatcher and PortMatcher\<close>

text \<open>\<^verbatim>\<open>(\d{1,3}\.){3}\d{1,3}\<close>, the shape shared by the three expressions.\<close>

definition quadRx :: rx where
  "quadRx = Seq (Rep 3 3 (Seq (Rep 1 3 Digit) (Lit CHR ''.''))) (Rep 1 3 Digit)"

definition ipv4Regex :: rx where
  "ipv4Regex = quadRx"

definition cidrRegex :: rx where
  "cidrRegex = Seq quadRx (Seq (Lit CHR ''/'') (Rep 1 2 Digit))"

definition rangeRegex :: rx where
  "rangeRegex = Seq quadRx (Seq (Lit CHR ''-'') quadRx)"

text \<open>The comparison \<^verbatim>\<open>num >= lo && num <= hi\<close>, false on \<^verbatim>\<open>NaN\<close>.\<close>

definition between :: "int \<Rightarrow> int \<Rightarrow> int option \<Rightarrow> bool" where
  "between lo hi num = (case num of None \<Rightarrow> False | Some n \<Rightarrow> lo \<le> n \<and> n \<le> hi)"

lemma split_not_Nil [simp]: "split c s \<noteq> []"
  by (induction s) (auto split: list.splits)

lemma split_pieces: "split c s = p # ps \<Longrightarrow> s = p @ concat (map ((#) c) ps)"
proof (induction s arbitrary: p ps)
  case Nil
  then show ?case by simp
next
  case (Cons x xs)
  show ?case
  proof (cases "x = c")
    case True
    with Cons.prems have p: "p = []" and ps: "ps = split c xs" by auto
    obtain q qs where q: "split c xs = q # qs" by (cases "split c xs") simp_all
    from Cons.IH [OF q] q p ps True show ?thesis by simp
  next
    case False
    obtain q qs where q: "split c xs = q # qs" by (cases "split c xs") simp_all
    with Cons.prems False have "p = x # q" "ps = qs" by auto
    with Cons.IH [OF q] show ?thesis by simp
  qed
qed

lemma split_lengths:
  assumes "split c s = a # b # rest"
  shows "length a < length s" and "length b < length s"
proof -
  define t where "t = concat (map ((#) c) rest)"
  from split_pieces [OF assms] have s: "s = a @ c # b @ t" by (simp add: t_def)
  show "length a < length s" by (subst s) simp
  show "length b < length s" by (subst s) simp
qed

text \<open>
  \<^verbatim>\<open>validateIP\<close>. The destructuring \<^verbatim>\<open>const [ipPart, cidr] = ip.split('/')\<close> reads the
  first two pieces; the regular expression tested just before guarantees that there are
  two (lemmas \<open>cidr_pieces\<close> and \<open>range_pieces\<close> below), so the last case of each
  \<open>case\<close> is never taken.
\<close>

function validateIP :: "string \<Rightarrow> bool" where
  "validateIP ip =
     (if ip = ''*'' \<or> ip = ''ANY'' \<or> toLowerCase ip = ''any'' then True
      else if rx_test ipv4Regex ip then
        list_all (\<lambda>part. between 0 255 (parseInt part)) (split CHR ''.'' ip)
      else if rx_test cidrRegex ip then
        (case split CHR ''/'' ip of
           ipPart # cidr # _ \<Rightarrow> validateIP ipPart \<and> between 0 32 (parseInt cidr)
         | _ \<Rightarrow> False)
      else if rx_test rangeRegex ip then
        (case split CHR ''-'' ip of
           start # end # _ \<Rightarrow> validateIP start \<and> validateIP end
         | _ \<Rightarrow> False)
      else False)"
  by pat_completeness auto
termination
proof (relation "measure length", goal_cases)
  case 1
  show ?case by simp
next
  case (2 ip ipPart ps cidr rest)
  then show ?case using split_lengths(1) [of "CHR ''/''" ip ipPart cidr rest] by simp
next
  case (3 ip start ps endp rest)
  then show ?case using split_lengths(1) [of "CHR ''-''" ip start endp rest] by simp
next
  case (4 ip start ps endp rest)
  then show ?case using split_lengths(2) [of "CHR ''-''" ip start endp rest] by simp
qed

declare validateIP.simps [simp del]

lemma split_no_sep: "p \<in> set (split c s) \<Longrightarrow> c \<notin> set p"
proof (induction s arbitrary: p)
  case Nil
  then show ?case by simp
next
  case (Cons x xs)
  obtain q qs where q: "split c xs = q # qs" by (cases "split c xs") simp_all
  with Cons show ?case by (auto split: if_splits)
qed

lemma set_trim: "set (trim s) \<subseteq> set s"
  unfolding trim_def by (auto dest!: set_dropWhileD)

text \<open>
  \<^verbatim>\<open>validatePort\<close>. \<^verbatim>\<open>const [start, end] = port.split('-').map(...)\<close> reads the first
  two pieces; \<^verbatim>\<open>port\<close> contains a dash here, so there are at least two.
\<close>

function validatePort :: "string \<Rightarrow> string \<Rightarrow> bool" where
  "validatePort port protocol =
     (if port = ''*'' \<or> port = ''ANY'' \<or> toLowerCase port = ''any'' then True
      else if protocol = ''ICMP'' then True
      else if includesChr port CHR '','' then
        list_all (\<lambda>p. validatePort (trim p) protocol) (split CHR '','' port)
      else if includesChr port CHR ''-'' then
        (case map (\<lambda>p. parseInt (trim p)) (split CHR ''-'' port) of
           start # end # _ \<Rightarrow>
             (case (start, end) of
                (Some s, Some e) \<Rightarrow> 1 \<le> s \<and> s \<le> 65535 \<and> 1 \<le> e \<and> e \<le> 65535 \<and> s \<le> e
              | _ \<Rightarrow> False)
         | _ \<Rightarrow> False)
      else between 1 65535 (parseInt port))"
  by pat_completeness auto
termination
proof (relation "measure (\<lambda>(port, protocol). length (filter (\<lambda>x. x = CHR '','') port))")
  show "wf (measure (\<lambda>(port, protocol). length (filter (\<lambda>x. x = CHR '','') port)))" by simp
next
  fix port protocol :: string and p
  assume inc: "includesChr port CHR '',''" and p: "p \<in> set (split CHR '','' port)"
  from p have "CHR '','' \<notin> set (trim p)" using split_no_sep set_trim by fastforce
  then have "filter (\<lambda>x. x = CHR '','') (trim p) = []" by (auto simp: filter_empty_conv)
  moreover from inc have "filter (\<lambda>x. x = CHR '','') port \<noteq> []"
    by (auto simp: includesChr_def filter_empty_conv)
  ultimately show "((trim p, protocol), port, protocol)
      \<in> measure (\<lambda>(port, protocol). length (filter (\<lambda>x. x = CHR '','') port))" by simp
qed

declare validatePort.simps [simp del]

section \<open>RuleValidator\<close>

datatype action = ALLOW | DENY

datatype protocol = TCP | UDP | ICMP | ALL

text \<open>The protocol tag as the string it is at run time.\<close>

fun protocolName :: "protocol \<Rightarrow> string" where
  "protocolName TCP = ''TCP''"
| "protocolName UDP = ''UDP''"
| "protocolName ICMP = ''ICMP''"
| "protocolName protocol.ALL = ''ALL''"

fun actionName :: "action \<Rightarrow> string" where
  "actionName ALLOW = ''ALLOW''"
| "actionName DENY = ''DENY''"

record RuleFormData =
  name :: string
  action :: action
  protocol :: protocol
  sourceIp :: string
  sourcePort :: string
  destinationIp :: string
  destinationPort :: string
  description :: string

record ValidationError =
  field :: string
  message :: string

text \<open>
  \<^verbatim>\<open>validateRule\<close>: the checks push onto \<^verbatim>\<open>errors\<close> one after the other. A string is
  falsy exactly when it is empty, so \<^verbatim>\<open>!rule.name?.trim()\<close> is \<open>trim (name rule) = []\<close>
  and \<^verbatim>\<open>rule.sourcePort && \<dots>\<close> starts with \<open>sourcePort rule \<noteq> []\<close>.
\<close>

definition validateRule :: "RuleFormData \<Rightarrow> ValidationError list" where
  "validateRule rule =
     (let errors = [];
          errors = (if trim (name rule) = []
                    then errors @ [\<lparr>field = ''name'', message = ''Rule name is required''\<rparr>]
                    else errors);
          errors = (if trim (sourceIp rule) = []
                    then errors @ [\<lparr>field = ''sourceIp'', message = ''Source IP is required''\<rparr>]
                    else if \<not> validateIP (sourceIp rule)
                    then errors @ [\<lparr>field = ''sourceIp'', message = ''Invalid IP address format''\<rparr>]
                    else errors);
          errors = (if trim (destinationIp rule) = []
                    then errors @ [\<lparr>field = ''destinationIp'', message = ''Destination IP is required''\<rparr>]
                    else if \<not> validateIP (destinationIp rule)
                    then errors @ [\<lparr>field = ''destinationIp'', message = ''Invalid IP address format''\<rparr>]
                    else errors);
          errors = (if sourcePort rule \<noteq> [] \<and>
                       \<not> validatePort (sourcePort rule) (protocolName (protocol rule))
                    then errors @ [\<lparr>field = ''sourcePort'', message = ''Invalid port format''\<rparr>]
                    else errors);
          errors = (if destinationPort rule \<noteq> [] \<and>
                       \<not> validatePort (destinationPort rule) (protocolName (protocol rule))
                    then errors @ [\<lparr>field = ''destinationPort'', message = ''Invalid port format''\<rparr>]
                    else errors)
      in errors)"

section \<open>ScriptCompiler\<close>

text \<open>A \<^verbatim>\<open>Date\<close> is its time value in milliseconds; \<open>None\<close> is the invalid date, whose
  time value is \<^verbatim>\<open>NaN\<close>.\<close>

type_synonym Date = "int option"

record FirewallRule =
  id :: string
  name :: string
  action :: action
  protocol :: protocol
  sourceIp :: string
  sourcePort :: string
  destinationIp :: string
  destinationPort :: string
  priority :: int
  enabled :: bool
  description :: "string option"
  createdAt :: Date
  updatedAt :: Date

text \<open>A number in a template literal: its decimal digits.\<close>

fun showNat :: "nat \<Rightarrow> string" where
  "showNat n = (if n < 10 then [char_of (48 + n)] else showNat (n div 10) @ [char_of (48 + n mod 10)])"

declare showNat.simps [simp del]

definition showInt :: "int \<Rightarrow> string" where
  "showInt i = (if i < 0 then CHR ''-'' # showNat (nat (- i)) else showNat (nat i))"

text \<open>
  \<^verbatim>\<open>Array.prototype.sort\<close> with a comparison function is a stable sort: an element
  moves in front of another only when the comparison is positive. Insertion from the
  right end is such a sort.
\<close>

fun insertBy :: "('a \<Rightarrow> 'a \<Rightarrow> int) \<Rightarrow> 'a \<Rightarrow> 'a list \<Rightarrow> 'a list" where
  "insertBy cmp x [] = [x]"
| "insertBy cmp x (y # ys) = (if cmp x y \<le> 0 then x # y # ys else y # insertBy cmp x ys)"

definition sortBy :: "('a \<Rightarrow> 'a \<Rightarrow> int) \<Rightarrow> 'a list \<Rightarrow> 'a list" where
  "sortBy cmp xs = foldr (insertBy cmp) xs []"

text \<open>The body of the \<^verbatim>\<open>forEach\<close> callback: what one rule appends to \<^verbatim>\<open>output\<close>.\<close>

definition emitRule :: "string \<Rightarrow> FirewallRule \<times> nat \<Rightarrow> string" where
  "emitRule output ri =
     (let rule = fst ri; index = snd ri;
          output = output @ ''# Rule '' @ showNat (index + 1) @ '': '' @ name rule @ ''\<newline>'';
          output = (case description rule of
                      Some d \<Rightarrow> if d \<noteq> [] then output @ ''# Description: '' @ d @ ''\<newline>'' else output
                    | None \<Rightarrow> output);
          command = ''iptables -A INPUT'';
          command = (if protocol rule \<noteq> protocol.ALL
                     then command @ '' -p '' @ toLowerCase (protocolName (protocol rule))
                     else command);
          command = (if sourceIp rule \<noteq> ''*'' \<and> sourceIp rule \<noteq> ''ANY''
                     then command @ '' -s '' @ sourceIp rule else command);
          command = (if destinationIp rule \<noteq> ''*'' \<and> destinationIp rule \<noteq> ''ANY''
                     then command @ '' -d '' @ destinationIp rule else command);
          command = (if protocol rule \<noteq> ICMP \<and> protocol rule \<noteq> protocol.ALL
                     then (let command = (if sourcePort rule \<noteq> [] \<and> sourcePort rule \<noteq> ''*'' \<and>
                                             sourcePort rule \<noteq> ''ANY''
                                          then command @ '' --sport '' @ sourcePort rule else command)
                           in if destinationPort rule \<noteq> [] \<and> destinationPort rule \<noteq> ''*'' \<and>
                                 destinationPort rule \<noteq> ''ANY''
                              then command @ '' --dport '' @ destinationPort rule else command)
                     else command);
          command = command @ (if action rule = ALLOW then '' -j ACCEPT'' else '' -j DROP'')
      in output @ command @ ''\<newline>\<newline>'')"

text \<open>
  \<^verbatim>\<open>exportToIptables\<close>. The clock and the platform's \<^verbatim>\<open>toISOString\<close> are parameters:
  \<open>now\<close> is the time value of \<^verbatim>\<open>new Date()\<close>.
\<close>

definition exportToIptables :: "(int \<Rightarrow> string) \<Rightarrow> int \<Rightarrow> FirewallRule list \<Rightarrow> string" where
  "exportToIptables toISOString now rules =
     (let enabledRules = sortBy (\<lambda>a b. priority a - priority b) (filter enabled rules);
          output = ''#!/bin/bash\<newline>'';
          output = output @ ''# Generated Firewall Rules\<newline>'';
          output = output @ ''# Generated on: '' @ toISOString now @ ''\<newline>'';
          output = output @ ''# Total rules: '' @ showNat (length enabledRules) @ ''\<newline>\<newline>'';
          output = output @ ''# Flush existing rules\<newline>'';
          output = output @ ''iptables -F\<newline>'';
          output = output @ ''iptables -X\<newline>'';
          output = output @ ''iptables -t nat -F\<newline>'';
          output = output @ ''iptables -t nat -X\<newline>\<newline>'';
          output = output @ ''# Set default policies\<newline>'';
          output = output @ ''iptables -P INPUT DROP\<newline>'';
          output = output @ ''iptables -P FORWARD DROP\<newline>'';
          output = output @ ''iptables -P OUTPUT ACCEPT\<newline>\<newline>'';
          output = output @ ''# Allow loopback traffic\<newline>'';
          output = output @ ''iptables -A INPUT -i lo -j ACCEPT\<newline>'';
          output = output @ ''iptables -A OUTPUT -o lo -j ACCEPT\<newline>\<newline>'';
          output = output @ ''# Allow established and related connections\<newline>'';
          output = output @ ''iptables -A INPUT -m state --state ESTABLISHED,RELATED -j ACCEPT\<newline>\<newline>'';
          output = foldl emitRule output (zip enabledRules [0 ..< length enabledRules]);
          output = output @ ''# Log dropped packets (optional)\<newline>'';
          output = output @ ''# iptables -A INPUT -j LOG --log-prefix '' @ [CHR 0x22] @ ''DROPPED: '' @
                     [CHR 0x22] @ ''\<newline>\<newline>''
      in output)"

section \<open>RuleSetCodec\<close>

text \<open>
  JSON values. Numbers are the integers (the values priorities and counts take); an
  object lists its properties in order, with distinct keys.
\<close>

datatype json =
    JNull
  | JBool bool
  | JNum int
  | JStr string
  | JArr "json list"
  | JObj "(string \<times> json) list"

text \<open>
  The text of an exchange document is modelled by what \<^verbatim>\<open>JSON.parse\<close> makes of it: the
  value it denotes, or a syntax error. \<^verbatim>\<open>JSON.stringify\<close> gives the document that
  denotes its argument.
\<close>

datatype document = Malformed | Doc json

datatype error = SyntaxError | TypeError | RangeError | Error string

definition JSON_stringify :: "json \<Rightarrow> document" where
  "JSON_stringify v = Doc v"

fun JSON_parse :: "document \<Rightarrow> error + json" where
  "JSON_parse Malformed = Inl SyntaxError"
| "JSON_parse (Doc v) = Inr v"

text \<open>The rule object that \<^verbatim>\<open>exportToJSON\<close> writes for one rule: the spread of the rule
  with both dates replaced by their ISO text. \<^verbatim>\<open>toISOString\<close> throws on an invalid
  date. An undefined \<^verbatim>\<open>description\<close> leaves no property.\<close>

definition ruleToJSON :: "(int \<Rightarrow> string) \<Rightarrow> FirewallRule \<Rightarrow> error + json" where
  "ruleToJSON toISOString rule =
     (case (createdAt rule, updatedAt rule) of
        (Some c, Some u) \<Rightarrow>
          Inr (JObj ([(''id'', JStr (id rule)),
                      (''name'', JStr (name rule)),
                      (''action'', JStr (actionName (action rule))),
                      (''protocol'', JStr (protocolName (protocol rule))),
                      (''sourceIp'', JStr (sourceIp rule)),
                      (''sourcePort'', JStr (sourcePort rule)),
                      (''destinationIp'', JStr (destinationIp rule)),
                      (''destinationPort'', JStr (destinationPort rule)),
                      (''priority'', JNum (priority rule)),
                      (''enabled'', JBool (enabled rule))] @
                     (case description rule of Some d \<Rightarrow> [(''description'', JStr d)] | None \<Rightarrow> []) @
                     [(''createdAt'', JStr (toISOString c)),
                      (''updatedAt'', JStr (toISOString u))]))
      | _ \<Rightarrow> Inl RangeError)"

text \<open>\<^verbatim>\<open>rules.map(\<dots>)\<close> where the callback may throw: the first exception ends it.\<close>

fun mapE :: "('a \<Rightarrow> error + 'b) \<Rightarrow> 'a list \<Rightarrow> error + 'b list" where
  "mapE f [] = Inr []"
| "mapE f (x # xs) =
     (case f x of
        Inl e \<Rightarrow> Inl e
      | Inr y \<Rightarrow> (case mapE f xs of Inl e \<Rightarrow> Inl e | Inr ys \<Rightarrow> Inr (y # ys)))"

lemma mapE_cong [fundef_cong]:
  "xs = ys \<Longrightarrow> (\<And>x. x \<in> set ys \<Longrightarrow> f x = g x) \<Longrightarrow> mapE f xs = mapE g ys"
proof -
  assume eq: "xs = ys" and fg: "\<And>x. x \<in> set ys \<Longrightarrow> f x = g x"
  from fg have "mapE f ys = mapE g ys"
  proof (induction ys)
    case Nil
    show ?case by simp
  next
    case (Cons a ys)
    then have "f a = g a" and "mapE f ys = mapE g ys" by simp_all
    then show ?case by (simp only: mapE.simps)
  qed
  with eq show ?thesis by simp
qed

definition exportToJSON :: "(int \<Rightarrow> string) \<Rightarrow> int \<Rightarrow> FirewallRule list \<Rightarrow> error + document" where
  "exportToJSON toISOString now rules =
     (case mapE (ruleToJSON toISOString) rules of
        Inl e \<Rightarrow> Inl e
      | Inr rs \<Rightarrow>
          Inr (JSON_stringify
                 (JObj [(''version'', JStr ''1.0''),
                        (''exportDate'', JStr (toISOString now)),
                        (''totalRules'', JNum (int (length rules))),
                        (''rules'', JArr rs)])))"

text \<open>Property access \<^verbatim>\<open>v.k\<close>: \<open>None\<close> is \<^verbatim>\<open>undefined\<close>; reading a property of
  \<^verbatim>\<open>null\<close> throws. None of the keys read here is a property of a string, a number, a
  boolean or an array.\<close>

fun getProp :: "json \<Rightarrow> string \<Rightarrow> error + json option" where
  "getProp JNull k = Inl TypeError"
| "getProp (JObj kvs) k = Inr (map_of kvs k)"
| "getProp _ k = Inr None"

fun truthy :: "json option \<Rightarrow> bool" where
  "truthy None = False"
| "truthy (Some JNull) = False"
| "truthy (Some (JBool b)) = b"
| "truthy (Some (JNum n)) = (n \<noteq> 0)"
| "truthy (Some (JStr s)) = (s \<noteq> [])"
| "truthy (Some (JArr xs)) = True"
| "truthy (Some (JObj kvs)) = True"

text \<open>\<^verbatim>\<open>a || b\<close>, where \<open>a\<close> may be \<^verbatim>\<open>undefined\<close>.\<close>

fun orElse :: "json option \<Rightarrow> json \<Rightarrow> json" where
  "orElse None b = b"
| "orElse (Some a) b = (if truthy (Some a) then a else b)"

text \<open>The value of a property of a rule held in memory: a JSON value or a date.\<close>

datatype jsvalue = JV json | DateV Date

type_synonym jsobject = "(string \<times> jsvalue) list"

text \<open>
  The string a value turns into where a string is wanted. An array joins its elements
  with commas, \<^verbatim>\<open>null\<close> elements being empty. An object parsed from JSON inherits
  \<^verbatim>\<open>toString\<close> from \<^verbatim>\<open>Object.prototype\<close> unless it has a property of this name of its
  own; that property is a JSON value, which cannot be called, and the conversion then
  throws a \<^verbatim>\<open>TypeError\<close> (\<^verbatim>\<open>valueOf\<close>, inherited or own, never gives a primitive value).
\<close>

fun joinWith :: "string \<Rightarrow> string list \<Rightarrow> string" where
  "joinWith sep [] = []"
| "joinWith sep [x] = x"
| "joinWith sep (x # y # ys) = x @ sep @ joinWith sep (y # ys)"

fun toString :: "json \<Rightarrow> error + string" where
  "toString JNull = Inr ''null''"
| "toString (JBool b) = Inr (if b then ''true'' else ''false'')"
| "toString (JNum n) = Inr (showInt n)"
| "toString (JStr s) = Inr s"
| "toString (JArr xs) =
     (case mapE (\<lambda>x. if x = JNull then Inr [] else toString x) xs of
        Inl e \<Rightarrow> Inl e
      | Inr ss \<Rightarrow> Inr (joinWith '','' ss))"
| "toString (JObj kvs) =
     (if map_of kvs ''toString'' \<noteq> None then Inl TypeError else Inr ''[object Object]'')"

text \<open>
  \<^verbatim>\<open>new Date(v)\<close>. \<open>Date_parse\<close> is the platform's parser of date text, a parameter:
  it gives the time value, or \<open>None\<close> for text it cannot read. A number is the time
  value itself, within the range of dates. An array or an object is first turned into
  a string, which may throw.
\<close>

fun newDate :: "(string \<Rightarrow> int option) \<Rightarrow> json option \<Rightarrow> error + Date" where
  "newDate Date_parse None = Inr None"
| "newDate Date_parse (Some JNull) = Inr (Some 0)"
| "newDate Date_parse (Some (JBool b)) = Inr (Some (if b then 1 else 0))"
| "newDate Date_parse (Some (JNum n)) = Inr (if \<bar>n\<bar> \<le> 8640000000000000 then Some n else None)"
| "newDate Date_parse (Some (JStr s)) = Inr (Date_parse s)"
| "newDate Date_parse (Some v) =
     (case toString v of Inl e \<Rightarrow> Inl e | Inr s \<Rightarrow> Inr (Date_parse s))"

text \<open>The filter \<^verbatim>\<open>rule.id && rule.name && rule.action\<close>.\<close>

definition isValidRecord :: "json \<Rightarrow> error + bool" where
  "isValidRecord rule =
     (case getProp rule ''id'' of
        Inl e \<Rightarrow> Inl e
      | Inr i \<Rightarrow>
          if \<not> truthy i then Inr False
          else (case getProp rule ''name'' of
                  Inl e \<Rightarrow> Inl e
                | Inr n \<Rightarrow>
                    if \<not> truthy n then Inr False
                    else (case getProp rule ''action'' of
                            Inl e \<Rightarrow> Inl e
                          | Inr a \<Rightarrow> Inr (truthy a))))"

fun filterE :: "('a \<Rightarrow> error + bool) \<Rightarrow> 'a list \<Rightarrow> error + 'a list" where
  "filterE f [] = Inr []"
| "filterE f (x # xs) =
     (case f x of
        Inl e \<Rightarrow> Inl e
      | Inr b \<Rightarrow> (case filterE f xs of Inl e \<Rightarrow> Inl e | Inr ys \<Rightarrow> Inr (if b then x # ys else ys)))"

text \<open>The own properties a spread copies. Only objects pass the filter above.\<close>

fun spread :: "json \<Rightarrow> jsobject" where
  "spread (JObj kvs) = map (\<lambda>(k, v). (k, JV v)) kvs"
| "spread _ = []"

text \<open>The callback of \<^verbatim>\<open>map\<close>: the record with a fresh id and both dates rebuilt,
  \<^verbatim>\<open>createdAt\<close> first. \<open>newId\<close> is the value \<^verbatim>\<open>generateId()\<close> returns at this call.\<close>

definition importRecord :: "(string \<Rightarrow> int option) \<Rightarrow> string \<Rightarrow> json \<Rightarrow> error + jsobject" where
  "importRecord Date_parse newId rule =
     (case getProp rule ''createdAt'' of
        Inl e \<Rightarrow> Inl e
      | Inr c \<Rightarrow>
          (case newDate Date_parse c of
             Inl e \<Rightarrow> Inl e
           | Inr created \<Rightarrow>
               (case getProp rule ''updatedAt'' of
                  Inl e \<Rightarrow> Inl e
                | Inr u \<Rightarrow>
                    (case newDate Date_parse u of
                       Inl e \<Rightarrow> Inl e
                     | Inr updated \<Rightarrow>
                         Inr (AList.update ''updatedAt'' (DateV updated)
                               (AList.update ''createdAt'' (DateV created)
                                 (AList.update ''id'' (JV (JStr newId)) (spread rule))))))))"

text \<open>
  The body of the \<^verbatim>\<open>try\<close> block of \<^verbatim>\<open>handleImport\<close>: the new rule list and the text of
  the alert. \<open>generateId\<close> gives the id of the \<open>i\<close>-th accepted record.
\<close>

definition tryImport ::
  "(string \<Rightarrow> int option) \<Rightarrow> (nat \<Rightarrow> string) \<Rightarrow> jsobject list \<Rightarrow> document \<Rightarrow>
     error + jsobject list \<times> string" where
  "tryImport Date_parse generateId prev content =
     (case JSON_parse content of
        Inl e \<Rightarrow> Inl e
      | Inr parsed \<Rightarrow>
          (case getProp parsed ''rules'' of
             Inl e \<Rightarrow> Inl e
           | Inr r \<Rightarrow>
               (case orElse r parsed of
                  JArr importedRules \<Rightarrow>
                    (case filterE isValidRecord importedRules of
                       Inl e \<Rightarrow> Inl e
                     | Inr kept \<Rightarrow>
                         (case mapE (\<lambda>(rule, i). importRecord Date_parse (generateId i) rule)
                                 (zip kept [0 ..< length kept]) of
                            Inl e \<Rightarrow> Inl e
                          | Inr validRules \<Rightarrow>
                              if length validRules = 0
                              then Inr (prev, ''No valid rules found in the imported file'')
                              else Inr (prev @ validRules,
                                        ''Successfully imported '' @ showNat (length validRules) @
                                        '' rule(s)'')))
                | _ \<Rightarrow> Inl (Error ''Invalid file format''))))"

text \<open>\<^verbatim>\<open>handleImport\<close>, from the moment the file is read: any exception leaves the rules
  as they were and alerts the format message.\<close>

definition handleImport ::
  "(string \<Rightarrow> int option) \<Rightarrow> (nat \<Rightarrow> string) \<Rightarrow> jsobject list \<Rightarrow> document \<Rightarrow>
     jsobject list \<times> string" where
  "handleImport Date_parse generateId prev content =
     (case tryImport Date_parse generateId prev content of
        Inr result \<Rightarrow> result
      | Inl e \<Rightarrow> (prev, ''Invalid JSON file format. Please check your file and try again.''))"

text \<open>The object a typed rule is in memory.\<close>

definition ruleObject :: "FirewallRule \<Rightarrow> jsobject" where
  "ruleObject rule =
     [(''id'', JV (JStr (id rule))),
      (''name'', JV (JStr (name rule))),
      (''action'', JV (JStr (actionName (action rule)))),
      (''protocol'', JV (JStr (protocolName (protocol rule)))),
      (''sourceIp'', JV (JStr (sourceIp rule))),
      (''sourcePort'', JV (JStr (sourcePort rule))),
      (''destinationIp'', JV (JStr (destinationIp rule))),
      (''destinationPort'', JV (JStr (destinationPort rule))),
      (''priority'', JV (JNum (priority rule))),
      (''enabled'', JV (JBool (enabled rule)))] @
     (case description rule of Some d \<Rightarrow> [(''description'', JV (JStr d))] | None \<Rightarrow> []) @
     [(''createdAt'', DateV (createdAt rule)),
      (''updatedAt'', DateV (updatedAt rule))]"

subsection \<open>A date parser and sample data for evaluation\<close>

text \<open>
  An instance of the platform's date parser, for evaluating the import on concrete
  documents: the date-time format of ECMAScript in the full form
  \<^verbatim>\<open>YYYY-MM-DDTHH:mm:ss.sssZ\<close>, which \<^verbatim>\<open>toISOString\<close> writes for the years 0000 to 9999.
  Every other text is unparsable here. \<open>daysFromCivil\<close> counts the days from 1970-01-01
  to a date of the proleptic Gregorian calendar.
\<close>

definition daysInMonth :: "int \<Rightarrow> int \<Rightarrow> int" where
  "daysInMonth y m =
     (if m = 2 then (if (y mod 4 = 0 \<and> y mod 100 \<noteq> 0) \<or> y mod 400 = 0 then 29 else 28)
      else if m = 4 \<or> m = 6 \<or> m = 9 \<or> m = 11 then 30 else 31)"

definition daysFromCivil :: "int \<Rightarrow> int \<Rightarrow> int \<Rightarrow> int" where
  "daysFromCivil y m d =
     (let y' = (if m \<le> 2 then y - 1 else y);
          era = y' div 400;
          yoe = y' - era * 400;
          doy = (153 * (if m > 2 then m - 3 else m + 9) + 2) div 5 + d - 1;
          doe = yoe * 365 + yoe div 4 - yoe div 100 + doy
      in era * 146097 + doe - 719468)"

definition digitsValue :: "string \<Rightarrow> int option" where
  "digitsValue ds = (if list_all isDigit ds then Some (numberValue 10 ds) else None)"

definition isoDateParse :: "string \<Rightarrow> int option" where
  "isoDateParse s =
     (if length s = 24 \<and> s ! 4 = CHR ''-'' \<and> s ! 7 = CHR ''-'' \<and> s ! 10 = CHR ''T'' \<and>
         s ! 13 = CHR '':'' \<and> s ! 16 = CHR '':'' \<and> s ! 19 = CHR ''.'' \<and> s ! 23 = CHR ''Z''
      then (case map digitsValue
                   [take 4 s, take 2 (drop 5 s), take 2 (drop 8 s), take 2 (drop 11 s),
                    take 2 (drop 14 s), take 2 (drop 17 s), take 3 (drop 20 s)] of
              [Some y, Some mo, Some d, Some h, Some mi, Some sec, Some ms] \<Rightarrow>
                if 1 \<le> mo \<and> mo \<le> 12 \<and> 1 \<le> d \<and> d \<le> daysInMonth y mo \<and>
                   h \<le> 23 \<and> mi \<le> 59 \<and> sec \<le> 59
                then Some ((((daysFromCivil y mo d * 24 + h) * 60 + mi) * 60 + sec) * 1000 + ms)
                else None
            | _ \<Rightarrow> None)
      else None)"



definition recordWithBadDate :: json where
  "recordWithBadDate =
     JObj [(''id'', JStr ''lq7x2m1c8d''), (''name'', JStr ''Allow Web Traffic''),
           (''action'', JStr ''ALLOW''), (''protocol'', JStr ''TCP''), (''sourceIp'', JStr ''*''),
           (''sourcePort'', JStr ''*''), (''destinationIp'', JStr ''*''),
           (''destinationPort'', JStr ''80,443''), (''priority'', JNum 2), (''enabled'', JBool True),
           (''createdAt'', JStr ''not a date''),
           (''updatedAt'', JStr ''2024-01-15T11:00:00.000Z'')]"

text \<open>The rule the record above is in memory once imported with the first fresh id.\<close>

definition ruleWithInvalidDate :: FirewallRule where
  "ruleWithInvalidDate =
     \<lparr>id = ''new0'', name = ''Allow Web Traffic'', action = ALLOW, protocol = TCP,
      sourceIp = ''*'', sourcePort = ''*'', destinationIp = ''*'', destinationPort = ''80,443'',
      priority = 2, enabled = True, description = None,
      createdAt = None, updatedAt = Some 1705316400000\<rparr>"

definition sampleIds :: "nat \<Rightarrow> string" where
  "sampleIds i = ''new'' @ showNat i"

definition sampleRules :: "FirewallRule list" where
  "sampleRules =
     [\<lparr>id = ''lq7x2k9f3a'', name = ''Allow SSH Access'', action = ALLOW, protocol = TCP,
       sourceIp = ''*'', sourcePort = ''*'', destinationIp = ''*'', destinationPort = ''22'',
       priority = 1, enabled = True,
       description = Some ''Allow SSH connections from any source for remote administration'',
       createdAt = Some 1705314600000, updatedAt = Some 1705314600000\<rparr>,
      \<lparr>id = ''lq7x2p4h6b'', name = ''Block Suspicious Network'', action = DENY,
       protocol = protocol.ALL, sourceIp = ''192.168.100.0/24'', sourcePort = ''*'',
       destinationIp = ''*'', destinationPort = ''*'', priority = 3, enabled = True,
       description = None,
       createdAt = Some 1705314600000, updatedAt = Some 1705396500000\<rparr>]"

definition sampleToISOString :: "int \<Rightarrow> string" where
  "sampleToISOString t =
     (if t = 1705314600000 then ''2024-01-15T10:30:00.000Z''
      else if t = 1705396500000 then ''2024-01-16T09:15:00.000Z''
      else if t = 0 then ''1970-01-01T00:00:00.000Z''
      else [])"

section \<open>The address grammar of the specification\<close>

text \<open>
  The grammar of address specifications as the specification words it, for comparison
  with \<open>validateIP\<close>: a wildcard token, four dot-separated decimal octets each in
  [0,255], a single address with a prefix that is an integer in [0,32], or two single
  addresses joined by a dash. Integers are decimal numerals.
\<close>

definition isNumeral :: "string \<Rightarrow> bool" where
  "isNumeral p = (p \<noteq> [] \<and> list_all isDigit p)"

definition isWildcard :: "string \<Rightarrow> bool" where
  "isWildcard s = (s = ''*'' \<or> toLowerCase s = ''any'')"

definition octet_spec :: "string \<Rightarrow> bool" where
  "octet_spec p = (isNumeral p \<and> numberValue 10 p \<le> 255)"

definition singleIPv4_spec :: "string \<Rightarrow> bool" where
  "singleIPv4_spec s = (case split CHR ''.'' s of
      [a, b, c, d] \<Rightarrow> octet_spec a \<and> octet_spec b \<and> octet_spec c \<and> octet_spec d
    | _ \<Rightarrow> False)"

definition cidr_spec :: "string \<Rightarrow> bool" where
  "cidr_spec s = (case split CHR ''/'' s of
      [ip, prefix] \<Rightarrow> singleIPv4_spec ip \<and> isNumeral prefix \<and> numberValue 10 prefix \<le> 32
    | _ \<Rightarrow> False)"

definition range_spec :: "string \<Rightarrow> bool" where
  "range_spec s = (case split CHR ''-'' s of
      [a, b] \<Rightarrow> singleIPv4_spec a \<and> singleIPv4_spec b
    | _ \<Rightarrow> False)"

definition isValidAddress_spec :: "string \<Rightarrow> bool" where
  "isValidAddress_spec s = (isWildcard s \<or> singleIPv4_spec s \<or> cidr_spec s \<or> range_spec s)"

text \<open>
  The same grammar with the length of the numerals bounded: an octet is a numeral of
  one to three digits with value at most 255, a prefix length a numeral of one or two
  digits with value at most 32.
\<close>

definition isDecimal :: "nat \<Rightarrow> string \<Rightarrow> bool" where
  "isDecimal n p = (p \<noteq> [] \<and> length p \<le> n \<and> list_all isDigit p)"

definition isOctet :: "string \<Rightarrow> bool" where
  "isOctet p = (isDecimal 3 p \<and> numberValue 10 p \<le> 255)"

definition isPrefixLength :: "string \<Rightarrow> bool" where
  "isPrefixLength p = (isDecimal 2 p \<and> numberValue 10 p \<le> 32)"

definition isSingleIPv4 :: "string \<Rightarrow> bool" where
  "isSingleIPv4 s = (case split CHR ''.'' s of
      [a, b, c, d] \<Rightarrow> isOctet a \<and> isOctet b \<and> isOctet c \<and> isOctet d
    | _ \<Rightarrow> False)"

definition isCidr :: "string \<Rightarrow> bool" where
  "isCidr s = (case split CHR ''/'' s of
      [ip, prefix] \<Rightarrow> isSingleIPv4 ip \<and> isPrefixLength prefix
    | _ \<Rightarrow> False)"

definition isRange :: "string \<Rightarrow> bool" where
  "isRange s = (case split CHR ''-'' s of
      [a, b] \<Rightarrow> isSingleIPv4 a \<and> isSingleIPv4 b
    | _ \<Rightarrow> False)"

definition isValidAddress_bounded :: "string \<Rightarrow> bool" where
  "isValidAddress_bounded s = (isWildcard s \<or> isSingleIPv4 s \<or> isCidr s \<or> isRange s)"

text \<open>The strings of the shape \<^verbatim>\<open>(\d{1,3}\.){3}\d{1,3}\<close>: four numerals of at most three
  digits between dots, whatever their values.\<close>

definition isQuad :: "string \<Rightarrow> bool" where
  "isQuad s = (case split CHR ''.'' s of
      [a, b, c, d] \<Rightarrow> isDecimal 3 a \<and> isDecimal 3 b \<and> isDecimal 3 c \<and> isDecimal 3 d
    | _ \<Rightarrow> False)"


section \<open>The checks of the rule validator, as the specification lists them\<close>

text \<open>The name is required; an address is required and must be valid; a port, when
  given, must be valid for the protocol. Each check gives at most one error.\<close>

definition requiredName :: "string \<Rightarrow> ValidationError list" where
  "requiredName n =
     (if trim n = [] then [\<lparr>field = ''name'', message = ''Rule name is required''\<rparr>] else [])"

definition requiredAddress :: "string \<Rightarrow> string \<Rightarrow> string \<Rightarrow> ValidationError list" where
  "requiredAddress key label ip =
     (if trim ip = [] then [\<lparr>field = key, message = label @ '' is required''\<rparr>]
      else if validateIP ip then []
      else [\<lparr>field = key, message = ''Invalid IP address format''\<rparr>])"

definition optionalPort :: "string \<Rightarrow> string \<Rightarrow> protocol \<Rightarrow> ValidationError list" where
  "optionalPort key port p =
     (if port = [] \<or> validatePort port (protocolName p) then []
      else [\<lparr>field = key, message = ''Invalid port format''\<rparr>])"

definition isValidForm :: "RuleFormData \<Rightarrow> bool" where
  "isValidForm f =
     (trim (RuleFormData.name f) \<noteq> [] \<and>
      trim (RuleFormData.sourceIp f) \<noteq> [] \<and> validateIP (RuleFormData.sourceIp f) \<and>
      trim (RuleFormData.destinationIp f) \<noteq> [] \<and> validateIP (RuleFormData.destinationIp f) \<and>
      (RuleFormData.sourcePort f = [] \<or>
         validatePort (RuleFormData.sourcePort f) (protocolName (RuleFormData.protocol f))) \<and>
      (RuleFormData.destinationPort f = [] \<or>
         validatePort (RuleFormData.destinationPort f) (protocolName (RuleFormData.protocol f))))"

section \<open>The parts of the compiled script\<close>

text \<open>The fixed text of the script, part by part in the order of the specification,
  the block of one rule, and the rules that are compiled: the enabled ones, sorted.\<close>

definition headerComments :: "string \<Rightarrow> nat \<Rightarrow> string" where
  "headerComments stamp n =
     ''#!/bin/bash\<newline># Generated Firewall Rules\<newline># Generated on: '' @ stamp @
     ''\<newline># Total rules: '' @ showNat n @ ''\<newline>\<newline>''"

definition flushDirectives :: string where
  "flushDirectives =
     ''# Flush existing rules\<newline>iptables -F\<newline>iptables -X\<newline>iptables -t nat -F\<newline>iptables -t nat -X\<newline>\<newline>''"

definition defaultPolicies :: string where
  "defaultPolicies =
     ''# Set default policies\<newline>iptables -P INPUT DROP\<newline>iptables -P FORWARD DROP\<newline>iptables -P OUTPUT ACCEPT\<newline>\<newline>''"

definition loopbackAllow :: string where
  "loopbackAllow =
     ''# Allow loopback traffic\<newline>iptables -A INPUT -i lo -j ACCEPT\<newline>iptables -A OUTPUT -o lo -j ACCEPT\<newline>\<newline>''"

definition establishedAllow :: string where
  "establishedAllow =
     ''# Allow established and related connections\<newline>iptables -A INPUT -m state --state ESTABLISHED,RELATED -j ACCEPT\<newline>\<newline>''"

definition preamble :: "string \<Rightarrow> nat \<Rightarrow> string" where
  "preamble stamp n =
     headerComments stamp n @ flushDirectives @ defaultPolicies @ loopbackAllow @ establishedAllow"

definition loggingSuggestion :: string where
  "loggingSuggestion =
     ''# Log dropped packets (optional)\<newline># iptables -A INPUT -j LOG --log-prefix '' @ [CHR 0x22] @
     ''DROPPED: '' @ [CHR 0x22] @ ''\<newline>\<newline>''"

definition ruleBlock :: "FirewallRule \<times> nat \<Rightarrow> string" where
  "ruleBlock ri = emitRule [] ri"

definition compiledRules :: "FirewallRule list \<Rightarrow> FirewallRule list" where
  "compiledRules rules = sortBy (\<lambda>a b. priority a - priority b) (filter enabled rules)"

section \<open>The decode of the specification\<close>

text \<open>
  A record has its required fields when \<^verbatim>\<open>id\<close>, \<^verbatim>\<open>name\<close> and \<^verbatim>\<open>action\<close> are present
  (and not empty). A document holds a list when it is a list, or an object whose
  \<^verbatim>\<open>rules\<close> field is one. The three notices of the import.
\<close>

definition hasRequiredFields :: "json \<Rightarrow> bool" where
  "hasRequiredFields rule =
     (case rule of
        JObj kvs \<Rightarrow> truthy (map_of kvs ''id'') \<and> truthy (map_of kvs ''name'') \<and>
                    truthy (map_of kvs ''action'')
      | _ \<Rightarrow> False)"

fun importedList :: "json \<Rightarrow> json list option" where
  "importedList (JArr xs) = Some xs"
| "importedList (JObj kvs) = (case map_of kvs ''rules'' of Some (JArr xs) \<Rightarrow> Some xs | _ \<Rightarrow> None)"
| "importedList _ = None"

definition formatErrorMessage :: string where
  "formatErrorMessage = ''Invalid JSON file format. Please check your file and try again.''"

definition noValidRulesMessage :: string where
  "noValidRulesMessage = ''No valid rules found in the imported file''"

definition successMessage :: "nat \<Rightarrow> string" where
  "successMessage n = ''Successfully imported '' @ showNat n @ '' rule(s)''"

text \<open>
  A value makes the \<^verbatim>\<open>Date\<close> constructor throw when it is an object with a \<^verbatim>\<open>toString\<close>
  property of its own, or an array holding such a value, directly or in nested arrays.
  The timestamps of a record convert when neither of them is such a value. \<open>dateOf\<close> is
  the date the constructor gives for a value, and \<open>importedObject\<close> the object the
  import holds for a record: its properties, with the id replaced by the fresh one and
  both timestamps by their dates.
\<close>

fun ownToString :: "json \<Rightarrow> bool" where
  "ownToString (JObj kvs) = (map_of kvs ''toString'' \<noteq> None)"
| "ownToString (JArr xs) = list_ex ownToString xs"
| "ownToString _ = False"

definition throwsAsDate :: "json option \<Rightarrow> bool" where
  "throwsAsDate v = (case v of Some j \<Rightarrow> ownToString j | None \<Rightarrow> False)"

definition stampsConvert :: "json \<Rightarrow> bool" where
  "stampsConvert rule =
     (case rule of
        JObj kvs \<Rightarrow> \<not> throwsAsDate (map_of kvs ''createdAt'') \<and>
                    \<not> throwsAsDate (map_of kvs ''updatedAt'')
      | _ \<Rightarrow> True)"




text \<open>
  A rule is well formed for the round trip when its id and name are not empty and its
  dates are valid dates whose ISO text the platform parses back to the same time value,
  as ECMAScript requires of \<^verbatim>\<open>Date.parse\<close> on the output of \<^verbatim>\<open>toISOString\<close>. An object
  has the business fields of a rule when every field but the id is the rule's.
  \<open>ruleRecord\<close> is the record written for a rule whose dates are valid, \<open>reimported\<close>
  the rules with the ids replaced by fresh ones, as objects.
\<close>

definition roundTrips :: "(int \<Rightarrow> string) \<Rightarrow> (string \<Rightarrow> int option) \<Rightarrow> Date \<Rightarrow> bool" where
  "roundTrips toISOString Date_parse d =
     (case d of Some t \<Rightarrow> Date_parse (toISOString t) = Some t | None \<Rightarrow> False)"

definition wellFormed :: "(int \<Rightarrow> string) \<Rightarrow> (string \<Rightarrow> int option) \<Rightarrow> FirewallRule \<Rightarrow> bool" where
  "wellFormed toISOString Date_parse r =
     (id r \<noteq> [] \<and> name r \<noteq> [] \<and>
      roundTrips toISOString Date_parse (createdAt r) \<and>
      roundTrips toISOString Date_parse (updatedAt r))"

definition sameBusinessFields :: "FirewallRule \<Rightarrow> jsobject \<Rightarrow> bool" where
  "sameBusinessFields r obj =
     (map_of obj ''name'' = Some (JV (JStr (name r))) \<and>
      map_of obj ''action'' = Some (JV (JStr (actionName (action r)))) \<and>
      map_of obj ''protocol'' = Some (JV (JStr (protocolName (protocol r)))) \<and>
      map_of obj ''sourceIp'' = Some (JV (JStr (sourceIp r))) \<and>
      map_of obj ''sourcePort'' = Some (JV (JStr (sourcePort r))) \<and>
      map_of obj ''destinationIp'' = Some (JV (JStr (destinationIp r))) \<and>
      map_of obj ''destinationPort'' = Some (JV (JStr (destinationPort r))) \<and>
      map_of obj ''priority'' = Some (JV (JNum (priority r))) \<and>
      map_of obj ''enabled'' = Some (JV (JBool (enabled r))) \<and>
      map_of obj ''description'' = map_option (\<lambda>d. JV (JStr d)) (description r) \<and>
      map_of obj ''createdAt'' = Some (DateV (createdAt r)) \<and>
      map_of obj ''updatedAt'' = Some (DateV (updatedAt r)))"

definition ruleRecord :: "(int \<Rightarrow> string) \<Rightarrow> FirewallRule \<Rightarrow> json" where
  "ruleRecord toISOString r = (case ruleToJSON toISOString r of Inr j \<Rightarrow> j | Inl e \<Rightarrow> JNull)"

definition reimported :: "(nat \<Rightarrow> string) \<Rightarrow> FirewallRule list \<Rightarrow> jsobject list" where
  "reimported generateId rs =
     map (\<lambda>(r, i). ruleObject (r\<lparr>id := generateId i\<rparr>)) (zip rs [0 ..< length rs])"

section \<open>Properties of the platform functions\<close>

lemma rx_rep_iff:
  assumes f: "\<And>s r. r \<in> set (f s) \<longleftrightarrow> (\<exists>p. P p \<and> s = p @ r)"
  shows "r \<in> set (rx_rep f m n s) \<longleftrightarrow>
    (\<exists>ps. list_all P ps \<and> m \<le> length ps \<and> length ps \<le> n \<and> s = concat ps @ r)"
proof (induction n arbitrary: m s)
  case 0
  show ?case by auto
next
  case (Suc n)
  show ?case (is "?L \<longleftrightarrow> ?R")
  proof
    assume ?L
    then consider "m = 0" "r = s"
      | p s' ps where "P p" "s = p @ s'" "list_all P ps" "m - 1 \<le> length ps" "length ps \<le> n" "s' = concat ps @ r"
      by (auto simp: f Suc.IH split: if_splits)
    then show ?R
    proof cases
      case 1
      then show ?thesis by (intro exI [of _ "[]"]) simp
    next
      case 2
      then show ?thesis by (intro exI [of _ "p # ps"]) auto
    qed
  next
    assume ?R
    then obtain qs where qs: "list_all P qs" "m \<le> length qs" "length qs \<le> Suc n" "s = concat qs @ r"
      by blast
    show ?L
    proof (cases qs)
      case Nil
      with qs show ?thesis by simp
    next
      case (Cons p ps)
      with qs have "concat ps @ r \<in> set (f s)" by (auto simp: f)
      moreover from Cons qs have "r \<in> set (rx_rep f (m - 1) n (concat ps @ r))"
        unfolding Suc.IH by (intro exI [of _ ps]) auto
      ultimately show ?thesis by auto
    qed
  qed
qed


lemma run_Seq: "r \<in> set (rx_run (Seq a b) s) \<longleftrightarrow> (\<exists>m. m \<in> set (rx_run a s) \<and> r \<in> set (rx_run b m))"
  by auto

lemma run_Digit: "r \<in> set (rx_run Digit s) \<longleftrightarrow> (\<exists>p. (\<exists>c. p = [c] \<and> isDigit c) \<and> s = p @ r)"
  by (cases s) auto

lemma run_Lit: "r \<in> set (rx_run (Lit a) s) \<longleftrightarrow> s = a # r"
  by (cases s) auto

declare rx_run.simps [simp del]

lemma singletons_decimal:
  "(\<exists>ps. list_all (\<lambda>p. \<exists>c. p = [c] \<and> isDigit c) ps \<and> 1 \<le> length ps \<and> length ps \<le> n \<and> q = concat ps)
     \<longleftrightarrow> isDecimal n q"
proof
  assume "\<exists>ps. list_all (\<lambda>p. \<exists>c. p = [c] \<and> isDigit c) ps \<and> 1 \<le> length ps \<and> length ps \<le> n \<and> q = concat ps"
  then obtain ps where ps: "list_all (\<lambda>p. \<exists>c. p = [c] \<and> isDigit c) ps" "1 \<le> length ps" "length ps \<le> n" "q = concat ps"
    by blast
  from ps(1) have len: "length (concat ps) = length ps" and dig: "list_all isDigit (concat ps)"
    by (induction ps) auto
  from len ps(2) have "length (concat ps) \<noteq> 0" by linarith
  then have "concat ps \<noteq> []" by (metis list.size(3))
  with len dig ps(3) show "isDecimal n q" unfolding isDecimal_def ps(4) by simp
next
  assume q: "isDecimal n q"
  have "list_all isDigit q \<Longrightarrow> list_all (\<lambda>p. \<exists>c. p = [c] \<and> isDigit c) (map (\<lambda>c. [c]) q) \<and> concat (map (\<lambda>c. [c]) q) = q"
    by (induction q) auto
  with q show "\<exists>ps. list_all (\<lambda>p. \<exists>c. p = [c] \<and> isDigit c) ps \<and> 1 \<le> length ps \<and> length ps \<le> n \<and> q = concat ps"
    by (intro exI [of _ "map (\<lambda>c. [c]) q"]) (auto simp: isDecimal_def Suc_le_eq)
qed

lemma run_decimal:
  "r \<in> set (rx_run (Rep 1 n Digit) s) \<longleftrightarrow> (\<exists>p. isDecimal n p \<and> s = p @ r)"
proof -
  have "r \<in> set (rx_run (Rep 1 n Digit) s) \<longleftrightarrow>
      (\<exists>ps. list_all (\<lambda>p. \<exists>c. p = [c] \<and> isDigit c) ps \<and> 1 \<le> length ps \<and> length ps \<le> n \<and> s = concat ps @ r)"
    unfolding rx_run.simps(4) by (rule rx_rep_iff) (rule run_Digit)
  also have "\<dots> \<longleftrightarrow> (\<exists>p. isDecimal n p \<and> s = p @ r)"
    by (simp only: singletons_decimal [symmetric]) blast
  finally show ?thesis .
qed


lemma three_items:
  "(\<exists>ps. list_all P ps \<and> 3 \<le> length ps \<and> length ps \<le> 3 \<and> s = concat ps @ r)
     \<longleftrightarrow> (\<exists>x y z. P x \<and> P y \<and> P z \<and> s = x @ y @ z @ r)"
proof
  assume "\<exists>ps. list_all P ps \<and> 3 \<le> length ps \<and> length ps \<le> 3 \<and> s = concat ps @ r"
  then obtain ps where ps: "list_all P ps" "length ps = 3" "s = concat ps @ r" by auto
  from ps(2) obtain x y z where "ps = [x, y, z]"
    by (auto simp: length_Suc_conv eval_nat_numeral)
  with ps show "\<exists>x y z. P x \<and> P y \<and> P z \<and> s = x @ y @ z @ r" by auto
next
  assume "\<exists>x y z. P x \<and> P y \<and> P z \<and> s = x @ y @ z @ r"
  then obtain x y z where "P x" "P y" "P z" "s = x @ y @ z @ r" by blast
  then show "\<exists>ps. list_all P ps \<and> 3 \<le> length ps \<and> length ps \<le> 3 \<and> s = concat ps @ r"
    by (intro exI [of _ "[x, y, z]"]) simp
qed

lemma run_group:
  "r \<in> set (rx_run (Seq (Rep 1 3 Digit) (Lit CHR ''.'')) s) \<longleftrightarrow>
     (\<exists>p. (\<exists>a. isDecimal 3 a \<and> p = a @ ''.'') \<and> s = p @ r)"
proof -
  have "r \<in> set (rx_run (Seq (Rep 1 3 Digit) (Lit CHR ''.'')) s) \<longleftrightarrow>
      (\<exists>m. (\<exists>p. isDecimal 3 p \<and> s = p @ m) \<and> m = CHR ''.'' # r)"
    by (simp only: run_Seq run_decimal run_Lit)
  also have "\<dots> \<longleftrightarrow> (\<exists>p. (\<exists>a. isDecimal 3 a \<and> p = a @ ''.'') \<and> s = p @ r)"
    by auto
  finally show ?thesis .
qed

lemma run_sep:
  "r \<in> set (rx_run (Seq (Lit c) b) s) \<longleftrightarrow> (\<exists>m. s = c # m \<and> r \<in> set (rx_run b m))"
  by (simp only: run_Seq run_Lit)

lemma run_quad:
  "r \<in> set (rx_run quadRx s) \<longleftrightarrow>
     (\<exists>a b c d. isDecimal 3 a \<and> isDecimal 3 b \<and> isDecimal 3 c \<and> isDecimal 3 d \<and>
        s = a @ ''.'' @ b @ ''.'' @ c @ ''.'' @ d @ r)"
proof -
  have rep: "m \<in> set (rx_run (Rep 3 3 (Seq (Rep 1 3 Digit) (Lit CHR ''.''))) s) \<longleftrightarrow>
      (\<exists>x y z. (\<exists>a. isDecimal 3 a \<and> x = a @ ''.'') \<and> (\<exists>a. isDecimal 3 a \<and> y = a @ ''.'') \<and>
         (\<exists>a. isDecimal 3 a \<and> z = a @ ''.'') \<and> s = x @ y @ z @ m)" for m s
  proof -
    have "m \<in> set (rx_run (Rep 3 3 (Seq (Rep 1 3 Digit) (Lit CHR ''.''))) s) \<longleftrightarrow>
      (\<exists>ps. list_all (\<lambda>p. \<exists>a. isDecimal 3 a \<and> p = a @ ''.'') ps \<and> 3 \<le> length ps \<and> length ps \<le> 3 \<and>
          s = concat ps @ m)"
      unfolding rx_run.simps(4) by (rule rx_rep_iff) (rule run_group)
    also have "\<dots> \<longleftrightarrow> (\<exists>x y z. (\<exists>a. isDecimal 3 a \<and> x = a @ ''.'') \<and> (\<exists>a. isDecimal 3 a \<and> y = a @ ''.'') \<and>
         (\<exists>a. isDecimal 3 a \<and> z = a @ ''.'') \<and> s = x @ y @ z @ m)"
      by (rule three_items)
    finally show ?thesis .
  qed
  have "r \<in> set (rx_run quadRx s) \<longleftrightarrow>
      (\<exists>m. (\<exists>x y z. (\<exists>a. isDecimal 3 a \<and> x = a @ ''.'') \<and> (\<exists>a. isDecimal 3 a \<and> y = a @ ''.'') \<and>
         (\<exists>a. isDecimal 3 a \<and> z = a @ ''.'') \<and> s = x @ y @ z @ m) \<and> (\<exists>p. isDecimal 3 p \<and> m = p @ r))"
    by (simp only: quadRx_def run_Seq rep run_decimal)
  also have "\<dots> \<longleftrightarrow> (\<exists>a b c d. isDecimal 3 a \<and> isDecimal 3 b \<and> isDecimal 3 c \<and> isDecimal 3 d \<and>
        s = a @ ''.'' @ b @ ''.'' @ c @ ''.'' @ d @ r)" (is "?L \<longleftrightarrow> ?R")
  proof
    assume ?L
    then obtain m x y z p a b c where
      "isDecimal 3 a" "x = a @ ''.''" "isDecimal 3 b" "y = b @ ''.''" "isDecimal 3 c" "z = c @ ''.''"
      "s = x @ y @ z @ m" "isDecimal 3 p" "m = p @ r"
      by blast
    then have "isDecimal 3 a \<and> isDecimal 3 b \<and> isDecimal 3 c \<and> isDecimal 3 p \<and>
        s = a @ ''.'' @ b @ ''.'' @ c @ ''.'' @ p @ r"
      by simp
    then show ?R by blast
  next
    assume ?R
    then obtain a b c d where d: "isDecimal 3 a" "isDecimal 3 b" "isDecimal 3 c" "isDecimal 3 d"
      and s: "s = a @ ''.'' @ b @ ''.'' @ c @ ''.'' @ d @ r"
      by blast
    from s have "s = (a @ ''.'') @ (b @ ''.'') @ (c @ ''.'') @ (d @ r)" by simp
    with d show ?L by blast
  qed
  finally show ?thesis .
qed


lemma split_append: "c \<notin> set a \<Longrightarrow> split c (a @ c # rest) = a # split c rest"
  by (induction a) auto

lemma split_plain: "c \<notin> set a \<Longrightarrow> split c a = [a]"
  by (induction a) auto

lemma digit_code: "isDigit x \<Longrightarrow> code x < 65 \<and> 47 < code x"
  by (simp add: isDigit_def)

lemma decimal_digits: "isDecimal n p \<Longrightarrow> x \<in> set p \<Longrightarrow> isDigit x"
  by (simp add: isDecimal_def list_all_iff)

lemma code_neq: "code x \<noteq> code y \<Longrightarrow> x \<noteq> y"
  by auto

lemma decimal_no_sep:
  assumes "isDecimal n p"
  shows "CHR ''.'' \<notin> set p" and "CHR ''/'' \<notin> set p" and "CHR ''-'' \<notin> set p"
  using decimal_digits [OF assms] digit_code by (fastforce simp: code_def)+

lemma isQuad_iff:
  "isQuad q \<longleftrightarrow> (\<exists>a b c d. isDecimal 3 a \<and> isDecimal 3 b \<and> isDecimal 3 c \<and> isDecimal 3 d \<and>
        q = a @ ''.'' @ b @ ''.'' @ c @ ''.'' @ d)"
proof
  assume "isQuad q"
  then obtain a b c d where sp: "split CHR ''.'' q = [a, b, c, d]"
    and d: "isDecimal 3 a" "isDecimal 3 b" "isDecimal 3 c" "isDecimal 3 d"
    by (auto simp: isQuad_def split: list.splits)
  from split_pieces [OF sp] have "q = a @ ''.'' @ b @ ''.'' @ c @ ''.'' @ d" by simp
  with d show "\<exists>a b c d. isDecimal 3 a \<and> isDecimal 3 b \<and> isDecimal 3 c \<and> isDecimal 3 d \<and>
        q = a @ ''.'' @ b @ ''.'' @ c @ ''.'' @ d" by blast
next
  assume "\<exists>a b c d. isDecimal 3 a \<and> isDecimal 3 b \<and> isDecimal 3 c \<and> isDecimal 3 d \<and>
        q = a @ ''.'' @ b @ ''.'' @ c @ ''.'' @ d"
  then obtain a b c d where d: "isDecimal 3 a" "isDecimal 3 b" "isDecimal 3 c" "isDecimal 3 d"
    and q: "q = a @ CHR ''.'' # b @ CHR ''.'' # c @ CHR ''.'' # d" by auto
  have "split CHR ''.'' q = [a, b, c, d]"
    unfolding q using d by (simp add: split_append split_plain decimal_no_sep)
  with d show "isQuad q" by (simp add: isQuad_def)
qed

lemma run_quad_iff: "r \<in> set (rx_run quadRx s) \<longleftrightarrow> (\<exists>q. isQuad q \<and> s = q @ r)"
proof -
  have "(\<exists>q. isQuad q \<and> s = q @ r) \<longleftrightarrow>
     (\<exists>a b c d. isDecimal 3 a \<and> isDecimal 3 b \<and> isDecimal 3 c \<and> isDecimal 3 d \<and>
        s = (a @ ''.'' @ b @ ''.'' @ c @ ''.'' @ d) @ r)"
    unfolding isQuad_iff by blast
  then show ?thesis unfolding run_quad by simp
qed

lemma test_ipv4: "rx_test ipv4Regex s \<longleftrightarrow> isQuad s"
  by (simp add: rx_test_def ipv4Regex_def run_quad_iff)

lemma test_cidr:
  "rx_test cidrRegex s \<longleftrightarrow> (\<exists>q p. isQuad q \<and> isDecimal 2 p \<and> s = q @ CHR ''/'' # p)"
proof -
  have "rx_test cidrRegex s \<longleftrightarrow>
      (\<exists>m. (\<exists>q. isQuad q \<and> s = q @ m) \<and> (\<exists>m'. m = CHR ''/'' # m' \<and> (\<exists>p. isDecimal 2 p \<and> m' = p @ [])))"
    by (simp only: rx_test_def cidrRegex_def run_Seq [of _ quadRx] run_sep run_quad_iff run_decimal)
  also have "\<dots> \<longleftrightarrow> (\<exists>q p. isQuad q \<and> isDecimal 2 p \<and> s = q @ CHR ''/'' # p)"
    by auto
  finally show ?thesis .
qed

lemma test_range:
  "rx_test rangeRegex s \<longleftrightarrow> (\<exists>q1 q2. isQuad q1 \<and> isQuad q2 \<and> s = q1 @ CHR ''-'' # q2)"
proof -
  have "rx_test rangeRegex s \<longleftrightarrow>
      (\<exists>m. (\<exists>q. isQuad q \<and> s = q @ m) \<and> (\<exists>m'. m = CHR ''-'' # m' \<and> (\<exists>q. isQuad q \<and> m' = q @ [])))"
    by (simp only: rx_test_def rangeRegex_def run_Seq [of _ quadRx] run_sep run_quad_iff)
  also have "\<dots> \<longleftrightarrow> (\<exists>q1 q2. isQuad q1 \<and> isQuad q2 \<and> s = q1 @ CHR ''-'' # q2)"
    by auto
  finally show ?thesis .
qed


lemma not_ws: "isDigit x \<Longrightarrow> \<not> isWhiteSpace x"
  by (auto simp: isDigit_def isWhiteSpace_def)

lemma numberValue_nonneg_aux:
  "list_all isDigit ds \<Longrightarrow> 0 \<le> acc \<Longrightarrow> 0 \<le> foldl (\<lambda>acc c. acc * 10 + digitValue c) acc ds"
  by (induction ds arbitrary: acc) (auto simp: digitValue_def isDigit_def)

lemma numberValue_nonneg: "isDecimal n p \<Longrightarrow> 0 \<le> numberValue 10 p"
  by (simp add: numberValue_def isDecimal_def numberValue_nonneg_aux)

lemma parseInt_decimal:
  assumes "isDecimal n p"
  shows "parseInt p = Some (numberValue 10 p)"
proof -
  from assms obtain x xs where p: "p = x # xs" and x: "isDigit x" and xs: "list_all isDigit xs"
    by (cases p) (auto simp: isDecimal_def)
  from x have ws: "\<not> isWhiteSpace x" by (rule not_ws)
  from x have sg: "x \<noteq> CHR ''-''" "x \<noteq> CHR ''+''"
    using digit_code [of x] by (auto simp: code_def)
  have s0: "dropWhile isWhiteSpace p = p" using ws by (simp add: p)
  have sign: "(case p of c # _ \<Rightarrow> if c = CHR ''-'' then - 1 else 1 | [] \<Rightarrow> (1 :: int)) = 1"
    using sg by (simp add: p)
  have s1: "(case p of c # cs \<Rightarrow> if c = CHR ''-'' \<or> c = CHR ''+'' then cs else p | [] \<Rightarrow> p) = p"
    using sg by (simp add: p)
  have nd: "\<not> isDigit CHR ''x''" "\<not> isDigit CHR ''X''" by (simp_all add: isDigit_def code_def)
  have hex: "(take 2 p = ''0x'' \<or> take 2 p = ''0X'') = False"
    using xs nd unfolding p by (cases xs) auto
  have tw: "takeWhile isDigit p = p"
    using x xs unfolding p by (simp add: takeWhile_eq_all_conv list_all_iff)
  have ne: "p \<noteq> []" by (simp add: p)
  show ?thesis
    by (simp only: parseInt_def Let_def s0 sign s1 hex if_False tw ne mult_1)
qed


lemma quad_chars:
  assumes "isQuad q" and "x \<in> set q"
  shows "isDigit x \<or> x = CHR ''.''"
proof -
  from assms(1) obtain a b c d where "isDecimal 3 a" "isDecimal 3 b" "isDecimal 3 c" "isDecimal 3 d"
    and "q = a @ ''.'' @ b @ ''.'' @ c @ ''.'' @ d"
    unfolding isQuad_iff by blast
  with assms(2) show ?thesis by (auto dest: decimal_digits)
qed

lemma quad_first: "isQuad q \<Longrightarrow> \<exists>x xs. q = x # xs \<and> isDigit x"
  unfolding isQuad_iff by (auto simp: isDecimal_def neq_Nil_conv)

lemma lower_ANY: "toLowerCase ''ANY'' = ''any''"
  by code_simp

lemma wildcard_test: "(s = ''*'' \<or> s = ''ANY'' \<or> toLowerCase s = ''any'') \<longleftrightarrow> isWildcard s"
  using lower_ANY by (auto simp: isWildcard_def)

lemma not_wildcard:
  assumes s: "s = x # xs" and x: "isDigit x" and low: "\<forall>y \<in> set s. code y < 65"
  shows "\<not> isWildcard s"
proof -
  from low have "toLowerCase s = s"
    unfolding toLowerCase_def by (intro map_idI) (auto simp: lowerChar_def)
  moreover have "\<not> isDigit CHR ''*''" "\<not> isDigit CHR ''a''"
    by (simp_all add: isDigit_def code_def)
  ultimately show ?thesis using s x by (auto simp: isWildcard_def)
qed

lemma quad_not_wildcard: "isQuad q \<Longrightarrow> \<not> isWildcard q"
proof -
  assume q: "isQuad q"
  then obtain x xs where "q = x # xs" "isDigit x" using quad_first by blast
  moreover have "code y < 65" if "y \<in> set q" for y
    using quad_chars [OF q that] digit_code [of y] by (auto simp: code_def)
  then have "\<forall>y \<in> set q. code y < 65" by blast
  ultimately show ?thesis by (rule not_wildcard)
qed

lemma single_quad: "isSingleIPv4 s \<Longrightarrow> isQuad s"
  by (auto simp: isSingleIPv4_def isQuad_def isOctet_def split: list.splits)

lemma octet_test: "isDecimal 3 p \<Longrightarrow> between 0 255 (parseInt p) \<longleftrightarrow> isOctet p"
  by (simp add: parseInt_decimal between_def isOctet_def numberValue_nonneg)

lemma prefix_test: "isDecimal 2 p \<Longrightarrow> between 0 32 (parseInt p) \<longleftrightarrow> isPrefixLength p"
  by (simp add: parseInt_decimal between_def isPrefixLength_def numberValue_nonneg)

lemma validateIP_quad:
  assumes "isQuad q"
  shows "validateIP q \<longleftrightarrow> isSingleIPv4 q"
proof -
  from assms obtain a b c d where sp: "split CHR ''.'' q = [a, b, c, d]"
    and d: "isDecimal 3 a" "isDecimal 3 b" "isDecimal 3 c" "isDecimal 3 d"
    by (auto simp: isQuad_def split: list.splits)
  from assms have "validateIP q \<longleftrightarrow> list_all (\<lambda>part. between 0 255 (parseInt part)) (split CHR ''.'' q)"
    using quad_not_wildcard [OF assms]
    by (subst validateIP.simps) (simp add: wildcard_test test_ipv4)
  also have "\<dots> \<longleftrightarrow> isSingleIPv4 q"
    using d by (simp add: sp isSingleIPv4_def octet_test)
  finally show ?thesis .
qed


lemma quad_no_sep:
  assumes "isQuad q"
  shows "CHR ''/'' \<notin> set q" and "CHR ''-'' \<notin> set q"
proof -
  have "\<not> isDigit CHR ''/''" "\<not> isDigit CHR ''-''" by (simp_all add: isDigit_def code_def)
  then show "CHR ''/'' \<notin> set q" and "CHR ''-'' \<notin> set q"
    using quad_chars [OF assms] by auto
qed

lemma cidr_pieces:
  assumes "isQuad q" and "isDecimal 2 p"
  shows "split CHR ''/'' (q @ CHR ''/'' # p) = [q, p]"
    and "split CHR ''-'' (q @ CHR ''/'' # p) = [q @ CHR ''/'' # p]"
  using quad_no_sep [OF assms(1)] decimal_no_sep [OF assms(2)]
  by (simp_all add: split_append split_plain)

lemma range_pieces:
  assumes "isQuad q1" and "isQuad q2"
  shows "split CHR ''-'' (q1 @ CHR ''-'' # q2) = [q1, q2]"
    and "split CHR ''/'' (q1 @ CHR ''-'' # q2) = [q1 @ CHR ''-'' # q2]"
  using quad_no_sep [OF assms(1)] quad_no_sep [OF assms(2)]
  by (simp_all add: split_append split_plain)

lemma quad_pieces:
  assumes "isQuad q"
  shows "split CHR ''/'' q = [q]" and "split CHR ''-'' q = [q]"
  using quad_no_sep [OF assms] by (simp_all add: split_plain)

lemma cidr_regex: "isCidr s \<Longrightarrow> rx_test cidrRegex s"
proof -
  assume "isCidr s"
  then obtain ip pre where sp: "split CHR ''/'' s = [ip, pre]" and "isSingleIPv4 ip" "isPrefixLength pre"
    by (auto simp: isCidr_def split: list.splits)
  then have "isQuad ip" "isDecimal 2 pre" by (simp_all add: single_quad isPrefixLength_def)
  moreover from split_pieces [OF sp] have "s = ip @ CHR ''/'' # pre" by simp
  ultimately show ?thesis unfolding test_cidr by blast
qed

lemma range_regex: "isRange s \<Longrightarrow> rx_test rangeRegex s"
proof -
  assume "isRange s"
  then obtain a b where sp: "split CHR ''-'' s = [a, b]" and "isSingleIPv4 a" "isSingleIPv4 b"
    by (auto simp: isRange_def split: list.splits)
  then have "isQuad a" "isQuad b" by (simp_all add: single_quad)
  moreover from split_pieces [OF sp] have "s = a @ CHR ''-'' # b" by simp
  ultimately show ?thesis unfolding test_range by blast
qed

lemma validateIP_iff_bounded: "validateIP s \<longleftrightarrow> isValidAddress_bounded s"
proof (cases "isWildcard s")
  case True
  then show ?thesis
    by (subst validateIP.simps) (simp add: wildcard_test isValidAddress_bounded_def)
next
  case nw: False
  consider (ip) "isQuad s"
    | (cidr) "\<not> isQuad s" "rx_test cidrRegex s"
    | (range) "\<not> isQuad s" "\<not> rx_test cidrRegex s" "rx_test rangeRegex s"
    | (none) "\<not> isQuad s" "\<not> rx_test cidrRegex s" "\<not> rx_test rangeRegex s"
    by blast
  then show ?thesis
  proof cases
    case ip
    then have "\<not> isCidr s" "\<not> isRange s"
      by (simp_all add: isCidr_def isRange_def quad_pieces)
    with nw show ?thesis by (simp add: isValidAddress_bounded_def validateIP_quad [OF ip])
  next
    case cidr
    then obtain q p where q: "isQuad q" and p: "isDecimal 2 p" and s: "s = q @ CHR ''/'' # p"
      unfolding test_cidr by blast
    have "validateIP s \<longleftrightarrow> validateIP q \<and> between 0 32 (parseInt p)"
      using nw cidr
      by (subst validateIP.simps) (simp add: wildcard_test test_ipv4 s cidr_pieces [OF q p])
    also have "\<dots> \<longleftrightarrow> isCidr s"
      by (simp add: isCidr_def s cidr_pieces [OF q p] validateIP_quad [OF q] prefix_test [OF p])
    finally have "validateIP s \<longleftrightarrow> isCidr s" .
    moreover have "\<not> isRange s" by (simp add: isRange_def s cidr_pieces [OF q p])
    moreover from cidr have "\<not> isSingleIPv4 s" using single_quad by blast
    ultimately show ?thesis using nw by (simp add: isValidAddress_bounded_def)
  next
    case range
    then obtain q1 q2 where q: "isQuad q1" "isQuad q2" and s: "s = q1 @ CHR ''-'' # q2"
      unfolding test_range by blast
    have "validateIP s \<longleftrightarrow> validateIP q1 \<and> validateIP q2"
      using nw range
      by (subst validateIP.simps) (simp add: wildcard_test test_ipv4 s range_pieces [OF q])
    also have "\<dots> \<longleftrightarrow> isRange s"
      by (simp add: isRange_def s range_pieces [OF q] validateIP_quad q)
    finally have "validateIP s \<longleftrightarrow> isRange s" .
    moreover have "\<not> isCidr s" by (simp add: isCidr_def s range_pieces [OF q])
    moreover from range have "\<not> isSingleIPv4 s" using single_quad by blast
    ultimately show ?thesis using nw by (simp add: isValidAddress_bounded_def)
  next
    case none
    then have "\<not> validateIP s"
      using nw by (subst validateIP.simps) (simp add: wildcard_test test_ipv4)
    moreover from none have "\<not> isSingleIPv4 s" "\<not> isCidr s" "\<not> isRange s"
      using single_quad cidr_regex range_regex by blast+
    ultimately show ?thesis using nw by (simp add: isValidAddress_bounded_def)
  qed
qed


section \<open>AddressMatcher: the claims\<close>

text \<open>Every address \<open>validateIP\<close> accepts is an address of the grammar as the
  specification words it; the converse fails on numerals with more digits only.\<close>

lemma bounded_within_spec:
  "isOctet p \<Longrightarrow> octet_spec p"
  "isSingleIPv4 s \<Longrightarrow> singleIPv4_spec s"
  "isCidr s \<Longrightarrow> cidr_spec s"
  "isRange s \<Longrightarrow> range_spec s"
proof -
  show o: "octet_spec p" if "isOctet p" for p
    using that by (simp add: isOctet_def octet_spec_def isDecimal_def isNumeral_def)
  show s: "singleIPv4_spec s" if "isSingleIPv4 s" for s
    using that by (auto simp: isSingleIPv4_def singleIPv4_spec_def o split: list.splits)
  show "cidr_spec s" if "isCidr s"
    using that
    by (auto simp: isCidr_def cidr_spec_def isPrefixLength_def isDecimal_def isNumeral_def s
        split: list.splits)
  show "range_spec s" if "isRange s"
    using that by (auto simp: isRange_def range_spec_def s split: list.splits)
qed

lemma validateIP_within_spec: "validateIP s \<Longrightarrow> isValidAddress_spec s"
  unfolding validateIP_iff_bounded isValidAddress_bounded_def isValidAddress_spec_def
  using bounded_within_spec by blast

text \<open>
  Claim C5, amended. For every string \<open>s\<close>, \<open>validateIP s\<close> holds exactly when \<open>s\<close>
  is a wildcard token (\<^verbatim>\<open>*\<close>, or \<^verbatim>\<open>ANY\<close> in any letter case), a single IPv4 address of
  four dot-separated decimal octets, each written with one to three digits and in
  [0,255], with nothing before or after, a CIDR block whose address part is such a
  single IPv4 address and whose prefix is written with one or two digits and is in
  [0,32], or a range of two such single IPv4 addresses joined by a dash. The examples of
  the specification come out as it says.
\<close>

theorem validateIP_grammar:
  "(\<forall>s. validateIP s \<longleftrightarrow> isValidAddress_bounded s) \<and>
   validateIP ''*'' \<and> validateIP ''ANY'' \<and> validateIP ''any'' \<and>
   validateIP ''10.0.0.0/24'' \<and> validateIP ''10.0.0.1-10.0.0.255'' \<and>
   \<not> validateIP ''256.1.1.1'' \<and> \<not> validateIP ''10.0.0.0/33'' \<and>
   \<not> validateIP ''10.0.0.1-999.0.0.1''"
proof -
  have "validateIP ''*''" "validateIP ''ANY''" "validateIP ''any''" by code_simp+
  moreover have "validateIP ''10.0.0.0/24''" "validateIP ''10.0.0.1-10.0.0.255''" by code_simp+
  moreover have "\<not> validateIP ''256.1.1.1''" "\<not> validateIP ''10.0.0.0/33''"
    "\<not> validateIP ''10.0.0.1-999.0.0.1''" by code_simp+
  ultimately show ?thesis using validateIP_iff_bounded by blast
qed

text \<open>
  Claim C5 as stated puts no bound on the digits of an octet or of a prefix: by its
  words \<^verbatim>\<open>0001.1.1.1\<close> is an address of four decimal octets in [0,255], and
  \<^verbatim>\<open>10.0.0.0/024\<close> a CIDR block with a prefix in [0,32]. \<open>validateIP\<close> rejects both:
  its regular expressions take at most three digits for an octet and two for a prefix.
\<close>

theorem validateIP_digit_bound:
  "isValidAddress_spec ''0001.1.1.1'' \<and> \<not> validateIP ''0001.1.1.1'' \<and>
   isValidAddress_spec ''10.0.0.0/024'' \<and> \<not> validateIP ''10.0.0.0/024''"
  by code_simp

lemma single_address: "isSingleIPv4 a \<longleftrightarrow> rx_test ipv4Regex a \<and> validateIP a"
  using single_quad [of a] validateIP_quad [of a] by (auto simp: test_ipv4)

text \<open>
  Claim C6. For all strings \<open>a\<close> and \<open>b\<close> that are valid single IPv4 addresses (the
  strings \<open>validateIP\<close> accepts by its first regular expression, lemma
  \<open>single_address\<close>), the range \<open>a-b\<close> is a valid address, whatever the numeric order
  of \<open>a\<close> and \<open>b\<close>: the validator checks that both sides parse and does not compare
  them.
\<close>

theorem range_order_unchecked:
  assumes "isSingleIPv4 a" and "isSingleIPv4 b"
  shows "validateIP (a @ ''-'' @ b)"
proof -
  from assms have q: "isQuad a" "isQuad b" by (simp_all add: single_quad)
  have "isRange (a @ ''-'' @ b)"
    using assms by (simp add: isRange_def range_pieces [OF q])
  then show ?thesis by (simp add: validateIP_iff_bounded isValidAddress_bounded_def)
qed

text \<open>An instance with the first address above the second.\<close>

theorem range_order_unchecked_witness:
  "isSingleIPv4 ''10.0.0.9'' \<and> isSingleIPv4 ''10.0.0.1'' \<and> validateIP ''10.0.0.9-10.0.0.1''"
proof -
  have a: "isSingleIPv4 ''10.0.0.9''" by code_simp
  have b: "isSingleIPv4 ''10.0.0.1''" by code_simp
  from range_order_unchecked [OF a b] a b show ?thesis by simp
qed

section \<open>PortMatcher: the claims\<close>

text \<open>
  Claim C10. On the empty string: \<open>validateIP\<close> is false; \<open>validatePort\<close> is false
  for every protocol other than ICMP, and true for ICMP.
\<close>

theorem empty_specs:
  "\<not> validateIP '''' \<and> (\<forall>p. p \<noteq> ''ICMP'' \<longrightarrow> \<not> validatePort '''' p) \<and> validatePort '''' ''ICMP''"
proof -
  have "\<not> validateIP ''''" by code_simp
  moreover have "parseInt '''' = None" by code_simp
  then have "\<And>p. p \<noteq> ''ICMP'' \<Longrightarrow> \<not> validatePort '''' p"
    by (subst validatePort.simps) (simp add: includesChr_def toLowerCase_def between_def)
  moreover have "validatePort '''' ''ICMP''" by code_simp
  ultimately show ?thesis by blast
qed

theorem empty_specs_witness:
  "''TCP'' \<noteq> ''ICMP'' \<and> \<not> validatePort '''' ''TCP''"
  using empty_specs by simp

text \<open>The examples of the specification for \<open>validatePort\<close> come out as it says.\<close>

lemma validatePort_examples:
  "validatePort ''22'' ''TCP'' \<and> \<not> validatePort ''0'' ''TCP'' \<and> \<not> validatePort ''65536'' ''TCP'' \<and>
   validatePort ''80,443'' ''TCP'' \<and> \<not> validatePort ''90-80'' ''TCP'' \<and> (\<forall>s. validatePort s ''ICMP'')"
proof -
  have "validatePort s ''ICMP''" for s by (subst validatePort.simps) simp
  moreover have "validatePort ''22'' ''TCP''" "\<not> validatePort ''0'' ''TCP''" "\<not> validatePort ''65536'' ''TCP''"
    "validatePort ''80,443'' ''TCP''" "\<not> validatePort ''90-80'' ''TCP''" by code_simp+
  ultimately show ?thesis by blast
qed

text \<open>
  Claim C4 says that a malformed numeric token, one with a character that is not a
  digit, makes a port specification invalid. \<open>validatePort\<close> reads its numbers with
  \<^verbatim>\<open>parseInt\<close>, which stops at the first character that is not a digit and ignores the
  rest: the specifications below are accepted, although \<^verbatim>\<open>22abc\<close> and \<^verbatim>\<open>90xyz\<close> are
  no integers, \<^verbatim>\<open>1-2-3\<close> is no range \<open>a-b\<close>, and \<^verbatim>\<open>0x50\<close> is read in radix 16.
\<close>

theorem validatePort_trailing_characters:
  "validatePort ''22abc'' ''TCP'' \<and> validatePort ''80-90xyz'' ''TCP'' \<and> validatePort ''1-2-3'' ''TCP'' \<and> validatePort ''0x50'' ''TCP''"
  by code_simp

section \<open>RuleValidator: the claims\<close>

lemma validateRule_parts:
  "validateRule f =
     requiredName (RuleFormData.name f) @
     requiredAddress ''sourceIp'' ''Source IP'' (RuleFormData.sourceIp f) @
     requiredAddress ''destinationIp'' ''Destination IP'' (RuleFormData.destinationIp f) @
     optionalPort ''sourcePort'' (RuleFormData.sourcePort f) (RuleFormData.protocol f) @
     optionalPort ''destinationPort'' (RuleFormData.destinationPort f) (RuleFormData.protocol f)"
  by (simp add: validateRule_def requiredName_def requiredAddress_def optionalPort_def Let_def)

text \<open>
  Claim C7. \<open>validateRule\<close> runs all its checks and collects every failure: its
  result is the errors of the name, the source address, the destination address, the
  source port and the destination port, in this order, each check giving at most one
  error with its fixed message. The result is empty exactly for the valid forms, and
  for a form whose name is missing it holds exactly one error with the field \<open>name\<close>.
\<close>

theorem validateRule_collects:
  "validateRule f =
     requiredName (RuleFormData.name f) @
     requiredAddress ''sourceIp'' ''Source IP'' (RuleFormData.sourceIp f) @
     requiredAddress ''destinationIp'' ''Destination IP'' (RuleFormData.destinationIp f) @
     optionalPort ''sourcePort'' (RuleFormData.sourcePort f) (RuleFormData.protocol f) @
     optionalPort ''destinationPort'' (RuleFormData.destinationPort f) (RuleFormData.protocol f) \<and>
   (validateRule f = [] \<longleftrightarrow> isValidForm f) \<and>
   (trim (RuleFormData.name f) = [] \<longrightarrow>
      filter (\<lambda>e. field e = ''name'') (validateRule f) =
        [\<lparr>field = ''name'', message = ''Rule name is required''\<rparr>])"
proof (intro conjI impI)
  show "validateRule f =
     requiredName (RuleFormData.name f) @
     requiredAddress ''sourceIp'' ''Source IP'' (RuleFormData.sourceIp f) @
     requiredAddress ''destinationIp'' ''Destination IP'' (RuleFormData.destinationIp f) @
     optionalPort ''sourcePort'' (RuleFormData.sourcePort f) (RuleFormData.protocol f) @
     optionalPort ''destinationPort'' (RuleFormData.destinationPort f) (RuleFormData.protocol f)"
    by (rule validateRule_parts)
  show "validateRule f = [] \<longleftrightarrow> isValidForm f"
    unfolding validateRule_parts
    by (simp add: requiredName_def requiredAddress_def optionalPort_def isValidForm_def)
  assume "trim (RuleFormData.name f) = []"
  then show "filter (\<lambda>e. field e = ''name'') (validateRule f) =
        [\<lparr>field = ''name'', message = ''Rule name is required''\<rparr>]"
    unfolding validateRule_parts
    by (simp add: requiredName_def requiredAddress_def optionalPort_def)
qed

text \<open>A form with a blank name, an address out of range and a malformed port.\<close>

theorem validateRule_collects_witness:
  "trim (RuleFormData.name
      \<lparr>RuleFormData.name = ''  '', action = ALLOW, protocol = TCP, sourceIp = ''10.0.0.300'',
       sourcePort = ''*'', destinationIp = ''*'', destinationPort = ''80-'', description = ''''\<rparr>) = [] \<and>
   filter (\<lambda>e. field e = ''name'')
     (validateRule
       \<lparr>RuleFormData.name = ''  '', action = ALLOW, protocol = TCP, sourceIp = ''10.0.0.300'',
        sourcePort = ''*'', destinationIp = ''*'', destinationPort = ''80-'', description = ''''\<rparr>) =
     [\<lparr>field = ''name'', message = ''Rule name is required''\<rparr>]"
  (is "trim (RuleFormData.name ?F) = [] \<and> ?R")
proof -
  have h: "trim (RuleFormData.name ?F) = []" by code_simp
  from validateRule_collects [of ?F] have "trim (RuleFormData.name ?F) = [] \<longrightarrow> ?R"
    by (elim conjE)
  with h show ?thesis by blast
qed

section \<open>ScriptCompiler: the claims\<close>

lemma insertBy_priority:
  "insertBy (\<lambda>a b. priority a - priority b) x ys = insort_key priority x ys"
  by (induction ys) auto

lemma sortBy_priority: "sortBy (\<lambda>a b. priority a - priority b) xs = sort_key priority xs"
  unfolding sortBy_def sort_key_def by (induction xs) (simp_all add: insertBy_priority)

lemma emitRule_appends: "emitRule out ri = out @ emitRule [] ri"
  by (simp add: emitRule_def Let_def split: option.split)

lemma foldl_emitRule: "foldl emitRule out xs = out @ concat (map ruleBlock xs)"
proof (induction xs arbitrary: out)
  case Nil
  show ?case by simp
next
  case (Cons x xs)
  have "foldl emitRule out (x # xs) = foldl emitRule (emitRule out x) xs" by simp
  also have "\<dots> = emitRule out x @ concat (map ruleBlock xs)" by (rule Cons.IH)
  also have "\<dots> = out @ concat (map ruleBlock (x # xs))"
    by (subst emitRule_appends) (simp add: ruleBlock_def)
  finally show ?case .
qed

lemma exportToIptables_text:
  "exportToIptables toISOString now rules =
     preamble (toISOString now) (length (compiledRules rules)) @
     concat (map ruleBlock (zip (compiledRules rules) [0 ..< length (compiledRules rules)])) @
     loggingSuggestion"
  by (simp add: exportToIptables_def Let_def foldl_emitRule compiledRules_def preamble_def
      headerComments_def flushDirectives_def defaultPolicies_def loopbackAllow_def
      establishedAllow_def loggingSuggestion_def)

lemma ruleBlock_comment:
  "\<exists>rest. ruleBlock (r, i) = ''# Rule '' @ showNat (i + 1) @ '': '' @ name r @ ''\<newline>'' @ rest"
  by (simp add: ruleBlock_def emitRule_def Let_def split: option.split)

text \<open>
  Claim C1. \<open>exportToIptables\<close> compiles the enabled rules, stably sorted by ascending
  priority. Its output is the fixed preamble (header comments, flush directives, default
  policies, loopback allow, established/related allow), then one block per compiled rule
  in that order, each starting with its numbered comment line, then the commented
  logging suggestion. The compiled rules are sorted by priority, keep the order of the
  input among equal priorities, and are exactly the enabled rules; the output does not
  depend on the disabled rules; with no enabled rule it is the preamble followed at once
  by the logging suggestion.
\<close>

theorem exportToIptables_structure:
  "exportToIptables toISOString now rules =
     preamble (toISOString now) (length (compiledRules rules)) @
     concat (map ruleBlock (zip (compiledRules rules) [0 ..< length (compiledRules rules)])) @
     loggingSuggestion \<and>
   (\<forall>r i. \<exists>rest. ruleBlock (r, i) =
      ''# Rule '' @ showNat (i + 1) @ '': '' @ name r @ ''\<newline>'' @ rest) \<and>
   sorted (map priority (compiledRules rules)) \<and>
   (\<forall>k. filter (\<lambda>r. priority r = k) (compiledRules rules) =
        filter (\<lambda>r. priority r = k) (filter enabled rules)) \<and>
   set (compiledRules rules) = {r \<in> set rules. enabled r} \<and>
   length (compiledRules rules) = length (filter enabled rules) \<and>
   exportToIptables toISOString now rules = exportToIptables toISOString now (filter enabled rules) \<and>
   (filter enabled rules = [] \<longrightarrow>
      exportToIptables toISOString now rules = preamble (toISOString now) 0 @ loggingSuggestion)"
proof (intro conjI allI impI)
  show "exportToIptables toISOString now rules =
     preamble (toISOString now) (length (compiledRules rules)) @
     concat (map ruleBlock (zip (compiledRules rules) [0 ..< length (compiledRules rules)])) @
     loggingSuggestion"
    by (rule exportToIptables_text)
  show "\<exists>rest. ruleBlock (r, i) =
      ''# Rule '' @ showNat (i + 1) @ '': '' @ name r @ ''\<newline>'' @ rest" for r i
    by (rule ruleBlock_comment)
  show "sorted (map priority (compiledRules rules))"
    by (simp add: compiledRules_def sortBy_priority)
  show "filter (\<lambda>r. priority r = k) (compiledRules rules) =
        filter (\<lambda>r. priority r = k) (filter enabled rules)" for k
    unfolding compiledRules_def sortBy_priority by (rule sort_key_stable)
  show "set (compiledRules rules) = {r \<in> set rules. enabled r}"
    by (simp add: compiledRules_def sortBy_priority)
  show "length (compiledRules rules) = length (filter enabled rules)"
    by (simp add: compiledRules_def sortBy_priority)
  show "exportToIptables toISOString now rules = exportToIptables toISOString now (filter enabled rules)"
    by (simp add: exportToIptables_text compiledRules_def)
  show "exportToIptables toISOString now rules = preamble (toISOString now) 0 @ loggingSuggestion"
    if "filter enabled rules = []"
    using that by (simp add: exportToIptables_text compiledRules_def sortBy_def)
qed

text \<open>A rule set whose only rule is disabled.\<close>

theorem exportToIptables_structure_witness:
  "filter enabled
     [\<lparr>id = ''r1'', name = ''Block P2P Traffic'', action = DENY, protocol = TCP, sourceIp = ''*'',
       sourcePort = ''*'', destinationIp = ''*'', destinationPort = ''6881-6889'', priority = 5,
       enabled = False, description = Some ''Block BitTorrent'', createdAt = Some 1705509900000,
       updatedAt = Some 1705509900000\<rparr>] = [] \<and>
   exportToIptables (\<lambda>t. ''2024-01-18T09:00:00.000Z'') 1705568400000
     [\<lparr>id = ''r1'', name = ''Block P2P Traffic'', action = DENY, protocol = TCP, sourceIp = ''*'',
       sourcePort = ''*'', destinationIp = ''*'', destinationPort = ''6881-6889'', priority = 5,
       enabled = False, description = Some ''Block BitTorrent'', createdAt = Some 1705509900000,
       updatedAt = Some 1705509900000\<rparr>] =
     preamble ''2024-01-18T09:00:00.000Z'' 0 @ loggingSuggestion"
  (is "filter enabled ?rs = [] \<and> ?R")
proof -
  have h: "filter enabled ?rs = []" by simp
  from exportToIptables_structure [of "\<lambda>t. ''2024-01-18T09:00:00.000Z''" 1705568400000 ?rs]
  have "filter enabled ?rs = [] \<longrightarrow> ?R" by (elim conjE)
  with h show ?thesis by blast
qed

text \<open>
  Claim C2 says that the directive of a rule has a source-match clause exactly when the
  source address is not a wildcard, lower-case \<^verbatim>\<open>any\<close> being a wildcard as it is for
  \<open>validateIP\<close>, and the same for the destination. \<open>exportToIptables\<close> compares with
  \<^verbatim>\<open>*\<close> and \<^verbatim>\<open>ANY\<close> only: for the address \<^verbatim>\<open>any\<close>, which \<open>validateIP\<close> accepts, it
  writes the clauses \<^verbatim>\<open>-s any\<close> and \<^verbatim>\<open>-d any\<close>.
\<close>

theorem exportToIptables_lowercase_any:
  "validateIP ''any'' \<and>
   exportToIptables (\<lambda>t. ''2024-01-18T09:00:00.000Z'') 1705568400000
     [\<lparr>id = ''r1'', name = ''Allow DNS'', action = ALLOW, protocol = UDP, sourceIp = ''any'',
       sourcePort = ''*'', destinationIp = ''any'', destinationPort = ''53'', priority = 1,
       enabled = True, description = None, createdAt = Some 1705509900000,
       updatedAt = Some 1705509900000\<rparr>] =
     preamble ''2024-01-18T09:00:00.000Z'' 1 @
     ''# Rule 1: Allow DNS\<newline>iptables -A INPUT -p udp -s any -d any --dport 53 -j ACCEPT\<newline>\<newline>'' @
     loggingSuggestion"
  by code_simp

section \<open>RuleSetCodec: the claims\<close>

lemma mapE_all:
  "(\<And>x. x \<in> set xs \<Longrightarrow> f x = Inr (g x)) \<Longrightarrow> mapE f xs = Inr (map g xs)"
  by (induction xs) simp_all


lemma filterE_all:
  "(\<And>x. x \<in> set xs \<Longrightarrow> f x = Inr (p x)) \<Longrightarrow> filterE f xs = Inr (filter p xs)"
  by (induction xs) simp_all

lemma isValidRecord_fields: "rule \<noteq> JNull \<Longrightarrow> isValidRecord rule = Inr (hasRequiredFields rule)"
  by (cases rule) (simp_all add: isValidRecord_def hasRequiredFields_def)

lemma tryImport_list:
  assumes "importedList parsed = Some xs"
  shows "tryImport P g prev (Doc parsed) =
     (case filterE isValidRecord xs of
        Inl e \<Rightarrow> Inl e
      | Inr kept \<Rightarrow>
          (case mapE (\<lambda>(rule, i). importRecord P (g i) rule) (zip kept [0 ..< length kept]) of
             Inl e \<Rightarrow> Inl e
           | Inr validRules \<Rightarrow>
               if length validRules = 0 then Inr (prev, noValidRulesMessage)
               else Inr (prev @ validRules, successMessage (length validRules))))"
proof (cases parsed)
  case (JObj kvs)
  with assms obtain "map_of kvs ''rules'' = Some (JArr xs)"
    by (auto split: option.splits json.splits)
  with JObj show ?thesis
    unfolding noValidRulesMessage_def successMessage_def by (simp add: tryImport_def)
next
  case (JArr ys)
  with assms show ?thesis
    unfolding noValidRulesMessage_def successMessage_def by (simp add: tryImport_def)
qed (use assms in simp_all)


lemma mapE_Inl: "x \<in> set xs \<Longrightarrow> f x = Inl e \<Longrightarrow> \<exists>e'. mapE f xs = Inl e'"
  by (induction xs) (auto split: sum.splits)

lemma filterE_Inl: "x \<in> set xs \<Longrightarrow> f x = Inl e \<Longrightarrow> \<exists>e'. filterE f xs = Inl e'"
  by (induction xs) (auto split: sum.splits)


lemma toString_throws: "ownToString j \<Longrightarrow> \<exists>e. toString j = Inl e"
proof (induction j rule: toString.induct)
  case (5 xs)
  then obtain x where x: "x \<in> set xs" "ownToString x" by (auto simp: list_ex_iff)
  then have "x \<noteq> JNull" by auto
  with "5.IH" [OF x(1)] x(2) obtain e where "(if x = JNull then Inr [] else toString x) = Inl e"
    by auto
  from mapE_Inl [where f = "\<lambda>x. if x = JNull then Inr [] else toString x", OF x(1) this]
  show ?case by auto
qed simp_all


lemma newDate_throws: "throwsAsDate v \<Longrightarrow> \<exists>e. newDate P v = Inl e"
proof -
  assume "throwsAsDate v"
  then obtain j where j: "v = Some j" "ownToString j"
    by (auto simp: throwsAsDate_def split: option.splits)
  then obtain e where "toString j = Inl e" using toString_throws by blast
  with j show ?thesis by (cases j) simp_all
qed


lemma importRecord_throws:
  assumes "hasRequiredFields rule" and "\<not> stampsConvert rule"
  shows "\<exists>e. importRecord P newId rule = Inl e"
proof -
  from assms(1) obtain kvs where r: "rule = JObj kvs"
    by (cases rule) (simp_all add: hasRequiredFields_def)
  with assms(2) consider "throwsAsDate (map_of kvs ''createdAt'')"
    | "throwsAsDate (map_of kvs ''updatedAt'')"
    by (auto simp: stampsConvert_def)
  then show ?thesis
  proof cases
    case 1
    then obtain e where "newDate P (map_of kvs ''createdAt'') = Inl e" using newDate_throws by blast
    with r show ?thesis by (simp add: importRecord_def)
  next
    case 2
    then obtain e where "newDate P (map_of kvs ''updatedAt'') = Inl e" using newDate_throws by blast
    with r show ?thesis by (auto simp: importRecord_def split: sum.splits)
  qed
qed


text \<open>What the statement of claim C8 below leaves out: a \<^verbatim>\<open>null\<close> in the list, or a kept
  record with a timestamp the \<^verbatim>\<open>Date\<close> constructor throws on, fails the whole import.\<close>

lemma handleImport_list_fails:
  assumes l: "importedList parsed = Some xs"
    and f: "JNull \<in> set xs \<or> \<not> list_all stampsConvert (filter hasRequiredFields xs)"
  shows "handleImport P g prev (Doc parsed) = (prev, formatErrorMessage)"
proof -
  let ?kept = "filter hasRequiredFields xs"
  have "\<exists>e. tryImport P g prev (Doc parsed) = Inl e"
  proof (cases "JNull \<in> set xs")
    case True
    have "isValidRecord JNull = Inl TypeError" by (simp add: isValidRecord_def)
    from filterE_Inl [where f = isValidRecord, OF True this] show ?thesis
      by (auto simp: tryImport_list [OF l])
  next
    case False
    then have k: "filterE isValidRecord xs = Inr ?kept"
      by (intro filterE_all isValidRecord_fields) auto
    from False f obtain r where r: "r \<in> set ?kept" "\<not> stampsConvert r"
      by (auto simp: list_all_iff)
    then obtain i where i: "(r, i) \<in> set (zip ?kept [0 ..< length ?kept])"
      by (metis in_set_impl_in_set_zip1 length_upt minus_nat.diff_0 prod.collapse set_zip_leftD
          surjective_pairing)
    from r have "hasRequiredFields r" by simp
    with r(2) obtain e where "importRecord P (g i) r = Inl e" using importRecord_throws by blast
    then have "(case (r, i) of (rule, i) \<Rightarrow> importRecord P (g i) rule) = Inl e" by simp
    from mapE_Inl [where f = "\<lambda>(rule, i). importRecord P (g i) rule", OF i this] k
    show ?thesis by (auto simp: tryImport_list [OF l])
  qed
  then show ?thesis by (auto simp: handleImport_def formatErrorMessage_def)
qed





text \<open>
  Claim C9 says that a record whose timestamp text cannot be parsed is dropped or fails
  the decode, and is never accepted with an invalid timestamp. \<open>handleImport\<close> hands
  the timestamps to the \<^verbatim>\<open>Date\<close> constructor and does not look at the result: the record
  below, whose \<^verbatim>\<open>createdAt\<close> is no date, is imported and counted, and its \<^verbatim>\<open>createdAt\<close>
  is the invalid date. The rule it is in memory makes \<open>exportToJSON\<close> throw, for
  \<^verbatim>\<open>toISOString\<close> throws on the invalid date.
\<close>

theorem unparsable_timestamp_imported:
  "handleImport isoDateParse sampleIds [] (Doc (JArr [recordWithBadDate])) =
     ([[(''id'', JV (JStr ''new0'')), (''name'', JV (JStr ''Allow Web Traffic'')),
        (''action'', JV (JStr ''ALLOW'')), (''protocol'', JV (JStr ''TCP'')),
        (''sourceIp'', JV (JStr ''*'')), (''sourcePort'', JV (JStr ''*'')),
        (''destinationIp'', JV (JStr ''*'')), (''destinationPort'', JV (JStr ''80,443'')),
        (''priority'', JV (JNum 2)), (''enabled'', JV (JBool True)),
        (''createdAt'', DateV None),
        (''updatedAt'', DateV (Some 1705316400000))]],
      ''Successfully imported 1 rule(s)'') \<and>
   fst (handleImport isoDateParse sampleIds [] (Doc (JArr [recordWithBadDate]))) =
     [ruleObject ruleWithInvalidDate] \<and>
   exportToJSON sampleToISOString 0 [ruleWithInvalidDate] = Inl RangeError"
  by code_simp

lemma mapE_map: "mapE f (map h xs) = mapE (\<lambda>x. f (h x)) xs"
  by (induction xs) (simp_all split: sum.split)

lemma actionName_not_Nil: "actionName a \<noteq> []"
  by (cases a) simp_all

lemma ruleToJSON_wellFormed:
  "wellFormed toISO P r \<Longrightarrow> ruleToJSON toISO r = Inr (ruleRecord toISO r)"
  by (auto simp: wellFormed_def roundTrips_def ruleRecord_def ruleToJSON_def split: option.splits)

lemma isValidRecord_wellFormed:
  "wellFormed toISO P r \<Longrightarrow> isValidRecord (ruleRecord toISO r) = Inr True"
  by (auto simp: wellFormed_def roundTrips_def ruleRecord_def ruleToJSON_def isValidRecord_def
      actionName_not_Nil split: option.splits)

lemma importRecord_wellFormed:
  assumes "wellFormed toISO P r"
  shows "importRecord P newId (ruleRecord toISO r) = Inr (ruleObject (r\<lparr>id := newId\<rparr>))"
proof -
  from assms obtain c u where c: "createdAt r = Some c" "P (toISO c) = Some c"
    and u: "updatedAt r = Some u" "P (toISO u) = Some u"
    by (auto simp: wellFormed_def roundTrips_def split: option.splits)
  show ?thesis
  proof (cases "description r")
    case None
    with c u show ?thesis
      by (simp add: ruleRecord_def ruleToJSON_def importRecord_def ruleObject_def)
  next
    case (Some d)
    with c u show ?thesis
      by (simp add: ruleRecord_def ruleToJSON_def importRecord_def ruleObject_def)
  qed
qed

lemma sameBusinessFields_ruleObject: "sameBusinessFields r (ruleObject (r\<lparr>id := newId\<rparr>))"
  by (cases "description r") (simp_all add: sameBusinessFields_def ruleObject_def)

lemma reimported_same: "list_all2 sameBusinessFields rs (reimported g rs)"
  unfolding reimported_def list_all2_conv_all_nth
  by (simp add: sameBusinessFields_ruleObject)

lemma reimport_steps:
  assumes wf: "list_all (wellFormed toISO P) rs"
  shows "exportToJSON toISO now rs =
      Inr (Doc (JObj [(''version'', JStr ''1.0''), (''exportDate'', JStr (toISO now)),
                      (''totalRules'', JNum (int (length rs))),
                      (''rules'', JArr (map (ruleRecord toISO) rs))]))"
    and "filterE isValidRecord (map (ruleRecord toISO) rs) = Inr (map (ruleRecord toISO) rs)"
    and "mapE (\<lambda>(rule, i). importRecord P (g i) rule)
           (zip (map (ruleRecord toISO) rs) [0 ..< length rs]) =
         Inr (reimported g rs)"
proof -
  from wf have w: "wellFormed toISO P r" if "r \<in> set rs" for r
    using that by (simp add: list_all_iff)
  have "mapE (ruleToJSON toISO) rs = Inr (map (ruleRecord toISO) rs)"
    by (intro mapE_all ruleToJSON_wellFormed [of toISO P] w)
  then show "exportToJSON toISO now rs =
      Inr (Doc (JObj [(''version'', JStr ''1.0''), (''exportDate'', JStr (toISO now)),
                      (''totalRules'', JNum (int (length rs))),
                      (''rules'', JArr (map (ruleRecord toISO) rs))]))"
    by (simp add: exportToJSON_def JSON_stringify_def)
  have "filterE isValidRecord (map (ruleRecord toISO) rs) =
      Inr (filter (\<lambda>x. True) (map (ruleRecord toISO) rs))"
    by (intro filterE_all) (auto simp: isValidRecord_wellFormed [of toISO P] w)
  then show "filterE isValidRecord (map (ruleRecord toISO) rs) = Inr (map (ruleRecord toISO) rs)"
    by simp
  have "mapE (\<lambda>(rule, i). importRecord P (g i) rule)
           (zip (map (ruleRecord toISO) rs) [0 ..< length rs]) =
        mapE (\<lambda>(r, i). importRecord P (g i) (ruleRecord toISO r)) (zip rs [0 ..< length rs])"
    by (simp add: zip_map1 mapE_map case_prod_unfold)
  also have "\<dots> = Inr (map (\<lambda>(r, i). ruleObject (r\<lparr>id := g i\<rparr>)) (zip rs [0 ..< length rs]))"
    by (intro mapE_all) (auto simp: importRecord_wellFormed [of toISO P] w dest: set_zip_leftD)
  finally show "mapE (\<lambda>(rule, i). importRecord P (g i) rule)
           (zip (map (ruleRecord toISO) rs) [0 ..< length rs]) =
         Inr (reimported g rs)"
    by (simp add: reimported_def)
qed

text \<open>
  Claim C3. For every collection \<open>rs\<close> of well-formed rules, \<open>exportToJSON\<close> gives a
  document, and \<open>handleImport\<close> on this document appends to the rules one object per
  rule of \<open>rs\<close>, in order: the object of that rule with a fresh id in place of its id.
  Each has the name, action, protocol, addresses, ports, priority, enabled flag,
  description and both timestamps of its rule. For a collection that is not empty the
  notice gives its length.
\<close>

theorem decode_encode_roundtrip:
  assumes "list_all (wellFormed toISOString Date_parse) rs"
  shows "\<exists>doc. exportToJSON toISOString now rs = Inr doc \<and>
           fst (handleImport Date_parse generateId prev doc) = prev @ reimported generateId rs \<and>
           list_all2 sameBusinessFields rs (reimported generateId rs) \<and>
           (rs \<noteq> [] \<longrightarrow> snd (handleImport Date_parse generateId prev doc) = successMessage (length rs))"
proof -
  let ?doc = "JObj [(''version'', JStr ''1.0''), (''exportDate'', JStr (toISOString now)),
                    (''totalRules'', JNum (int (length rs))),
                    (''rules'', JArr (map (ruleRecord toISOString) rs))]"
  note st = reimport_steps(1) [OF assms, of now] reimport_steps(2) [OF assms]
    reimport_steps(3) [OF assms, of generateId]
  have l: "importedList ?doc = Some (map (ruleRecord toISOString) rs)" by simp
  have len: "length (reimported generateId rs) = length rs" by (simp add: reimported_def)
  have "tryImport Date_parse generateId prev (Doc ?doc) =
      (if length rs = 0 then Inr (prev, noValidRulesMessage)
       else Inr (prev @ reimported generateId rs, successMessage (length rs)))"
    by (simp add: tryImport_list [OF l] st(2) st(3) len)
  then have "fst (handleImport Date_parse generateId prev (Doc ?doc)) = prev @ reimported generateId rs"
    and "rs \<noteq> [] \<longrightarrow> snd (handleImport Date_parse generateId prev (Doc ?doc)) = successMessage (length rs)"
    by (auto simp: handleImport_def reimported_def)
  with st(1) reimported_same show ?thesis by blast
qed

theorem decode_encode_roundtrip_witness:
  "list_all (wellFormed sampleToISOString isoDateParse) sampleRules \<and>
   (\<exists>doc. exportToJSON sampleToISOString 0 sampleRules = Inr doc \<and>
      fst (handleImport isoDateParse sampleIds [] doc) = [] @ reimported sampleIds sampleRules \<and>
      list_all2 sameBusinessFields sampleRules (reimported sampleIds sampleRules) \<and>
      (sampleRules \<noteq> [] \<longrightarrow>
         snd (handleImport isoDateParse sampleIds [] doc) = successMessage (length sampleRules)))"
proof -
  have h: "list_all (wellFormed sampleToISOString isoDateParse) sampleRules" by code_simp
  from decode_encode_roundtrip [OF h, of 0 sampleIds "[]"] h show ?thesis by blast
qed

end
